theory Spec2Isabelle
  imports Complex_Main "HOL-Library.Word"
begin

section \<open>Visual odometry of RatSLAM: the data model\<close>

text \<open>
  The development embeds \<^verbatim>\<open>src/ratslam/visual_odometry.cpp\<close>: the constructor,
  \<^verbatim>\<open>on_image\<close>, the shift estimator \<^verbatim>\<open>visual_odo\<close> and the profile extractor
  \<^verbatim>\<open>convert_view_to_view_template\<close>.

  Conventions of the embedding.
  \<^item> A C++ \<^verbatim>\<open>int\<close> is an \<^typ>\<open>int\<close>: the value of an \<^verbatim>\<open>int\<close> expression is
    taken to fit its type (signed overflow is undefined in the source and is not
    modelled). The conversions between \<^verbatim>\<open>int\<close> and \<^verbatim>\<open>unsigned int\<close> that the
    extractor performs are written out modulo \<open>2 ^ 32\<close>; the \<^verbatim>\<open>unsigned int\<close>
    dimensions that \<^verbatim>\<open>on_image\<close> receives are \<^typ>\<open>32 word\<close>s, read as two's
    complement when they are stored in the \<^verbatim>\<open>int\<close> members; the
    \<^verbatim>\<open>unsigned short\<close> width of the estimator is a \<^typ>\<open>16 word\<close>.
  \<^item> A \<^verbatim>\<open>double\<close> is a \<^typ>\<open>real\<close>: rounding is not modelled. A division whose
    divisor can be zero is written out: the quotient that the estimator compares and
    drops is an \<^typ>\<open>real option\<close> (\<open>None\<close> for the IEEE not-a-number), and a
    non-finite quotient that the source would store ends the run with \<open>NonFinite\<close>.
  \<^item> A buffer reached through a pointer is a list; an access outside of it, undefined
    behaviour in the source, ends the run with \<open>OutOfBounds\<close>. The read of a member
    that nothing has assigned, undefined behaviour as well, ends it with \<open>Unassigned\<close>.
  \<^item> The class declaration (\<^verbatim>\<open>visual_odometry.h\<close>) is not among the sources: the
    region bounds and the latched image dimensions are taken as \<^verbatim>\<open>int\<close> fields,
    the calibration constants as \<^verbatim>\<open>double\<close> fields and the four profiles as
    \<^verbatim>\<open>std::vector<double>\<close>, as the constructor's parameters and the calls on them
    show.
\<close>

type_synonym byte = "8 word"

datatype error = OutOfBounds | DivideByZero | LengthError | NonFinite | Unassigned

record visual_odometry =
  VTRANS_IMAGE_X_MIN :: int
  VTRANS_IMAGE_X_MAX :: int
  VTRANS_IMAGE_Y_MIN :: int
  VTRANS_IMAGE_Y_MAX :: int
  VROT_IMAGE_X_MIN :: int
  VROT_IMAGE_X_MAX :: int
  VROT_IMAGE_Y_MIN :: int
  VROT_IMAGE_Y_MAX :: int
  CAMERA_FOV_DEG :: real
  CAMERA_HZ :: real
  VTRANS_SCALING :: real
  VTRANS_MAX :: real
  IMAGE_WIDTH :: int
  IMAGE_HEIGHT :: int
  vtrans_profile :: "real list"
  vtrans_prev_profile :: "real list"
  vrot_profile :: "real list"
  vrot_prev_profile :: "real list"
  first :: bool

subsection \<open>Buffers and integer conversions\<close>

text \<open>Reading \<^verbatim>\<open>p[i]\<close> with the index an \<^verbatim>\<open>int\<close>.\<close>

definition rd :: "'a list \<Rightarrow> int \<Rightarrow> error + 'a" where
  "rd xs i = (if 0 \<le> i \<and> i < int (length xs) then Inr (xs ! nat i) else Inl OutOfBounds)"

text \<open>\<^verbatim>\<open>std::vector<double>::resize(n)\<close> on an empty vector, \<open>n\<close> an \<^verbatim>\<open>int\<close>
  expression: a negative \<open>n\<close> converts to a size beyond \<^verbatim>\<open>max_size()\<close> and
  \<^verbatim>\<open>std::length_error\<close> is thrown; otherwise the vector holds \<open>n\<close> zeros.\<close>

definition resize :: "int \<Rightarrow> error + real list" where
  "resize n = (if n < 0 then Inl LengthError else Inr (replicate (nat n) 0))"

text \<open>\<^verbatim>\<open>int\<close> to \<^verbatim>\<open>unsigned int\<close> and back.\<close>

definition to_unsigned :: "int \<Rightarrow> int" where
  "to_unsigned v = v mod 2 ^ 32"

definition to_int :: "int \<Rightarrow> int" where
  "to_int u = (if u < 2 ^ 31 then u else u - 2 ^ 32)"

text \<open>Modelled from the spec: the macro \<^verbatim>\<open>M_PI\<close> comes from the C library
  (\<^verbatim>\<open><cmath>\<close>), not from this repository; the spec reads it as \<open>\<pi>\<close>.\<close>

definition M_PI :: real where
  "M_PI = pi"

text \<open>The loop \<^verbatim>\<open>for (unsigned int i = 0; i < n; i++) dst[i] = src[i];\<close>, which
  \<^verbatim>\<open>on_image\<close> runs on the first frame and \<^verbatim>\<open>visual_odo\<close> at its end.\<close>

function copy_loop :: "nat \<Rightarrow> nat \<Rightarrow> real list \<Rightarrow> real list \<Rightarrow> error + real list" where
  "copy_loop i n src dst =
     (if i < n then
        (if i < length src \<and> i < length dst
         then copy_loop (Suc i) n src (dst[i := src ! i])
         else Inl OutOfBounds)
      else Inr dst)"
  by pat_completeness auto
termination
  by (relation "measure (\<lambda>(i, n, src, dst). n - i)") auto

declare copy_loop.simps [simp del]

section \<open>The constructor\<close>

text \<open>
  The constructor has no image size among its parameters. Where a maximum bound is negative
  it reads the member \<^verbatim>\<open>IMAGE_WIDTH\<close> or \<^verbatim>\<open>IMAGE_HEIGHT\<close>, which only
  \<^verbatim>\<open>on_image\<close> assigns: at construction the member holds no value, and the read ends
  the run. \<open>resolve_max\<close> is one of the four statements
  \<^verbatim>\<open>if (max < 0) { MAX = IMAGE_...; } else { MAX = max; }\<close>.
\<close>

definition resolve_max :: "int \<Rightarrow> error + int" where
  "resolve_max image_max = (if image_max < 0 then Inl Unassigned else Inr image_max)"

text \<open>
  The constructor assigns neither \<^verbatim>\<open>IMAGE_WIDTH\<close> nor \<^verbatim>\<open>IMAGE_HEIGHT\<close>. The
  record keeps \<open>0\<close> in both fields until \<^verbatim>\<open>on_image\<close> assigns them, which it does
  before anything reads them: no result of \<^verbatim>\<open>on_image\<close> depends on what the two
  fields held before the call.
\<close>

definition VisualOdometry ::
  "int \<Rightarrow> int \<Rightarrow> int \<Rightarrow> int \<Rightarrow> int \<Rightarrow> int \<Rightarrow> int \<Rightarrow> int \<Rightarrow>
   real \<Rightarrow> real \<Rightarrow> real \<Rightarrow> real \<Rightarrow> error + visual_odometry" where
  "VisualOdometry
     vtrans_image_x_min vtrans_image_x_max vtrans_image_y_min vtrans_image_y_max
     vrot_image_x_min vrot_image_x_max vrot_image_y_min vrot_image_y_max
     camera_fov_deg camera_hz vtrans_scaling vtrans_max =
   (case resolve_max vtrans_image_x_max of Inl e \<Rightarrow> Inl e | Inr vtrans_x_max \<Rightarrow>
   (case resolve_max vtrans_image_y_max of Inl e \<Rightarrow> Inl e | Inr vtrans_y_max \<Rightarrow>
   (case resolve_max vrot_image_x_max of Inl e \<Rightarrow> Inl e | Inr vrot_x_max \<Rightarrow>
   (case resolve_max vrot_image_y_max of Inl e \<Rightarrow> Inl e | Inr vrot_y_max \<Rightarrow>
   (case resize (vtrans_x_max - vtrans_image_x_min) of Inl e \<Rightarrow> Inl e | Inr tp \<Rightarrow>
   (case resize (vtrans_x_max - vtrans_image_x_min) of Inl e \<Rightarrow> Inl e | Inr tpp \<Rightarrow>
   (case resize (vrot_x_max - vrot_image_x_min) of Inl e \<Rightarrow> Inl e | Inr rp \<Rightarrow>
   (case resize (vrot_x_max - vrot_image_x_min) of Inl e \<Rightarrow> Inl e | Inr rpp \<Rightarrow>
      Inr \<lparr> VTRANS_IMAGE_X_MIN = vtrans_image_x_min,
            VTRANS_IMAGE_X_MAX = vtrans_x_max,
            VTRANS_IMAGE_Y_MIN = vtrans_image_y_min,
            VTRANS_IMAGE_Y_MAX = vtrans_y_max,
            VROT_IMAGE_X_MIN = vrot_image_x_min,
            VROT_IMAGE_X_MAX = vrot_x_max,
            VROT_IMAGE_Y_MIN = vrot_image_y_min,
            VROT_IMAGE_Y_MAX = vrot_y_max,
            CAMERA_FOV_DEG = camera_fov_deg,
            CAMERA_HZ = camera_hz,
            VTRANS_SCALING = vtrans_scaling,
            VTRANS_MAX = vtrans_max,
            IMAGE_WIDTH = 0,
            IMAGE_HEIGHT = 0,
            vtrans_profile = tp,
            vtrans_prev_profile = tpp,
            vrot_profile = rp,
            vrot_prev_profile = rpp,
            first = True \<rparr>))))))))"

section \<open>The shift estimator\<close>

definition slen :: int where
  "slen = 40"

text \<open>The inner loop of both scans,
  \<^verbatim>\<open>for (k = 0; k < cwl - offset; k++) cdiff += fabs(data[k + da] - olddata[k + oa]);\<close>
  where the first scan has \<open>da = 0\<close>, \<open>oa = offset\<close> and the second \<open>da = offset\<close>,
  \<open>oa = 0\<close>.\<close>

function sad_loop ::
  "real list \<Rightarrow> real list \<Rightarrow> int \<Rightarrow> int \<Rightarrow> int \<Rightarrow> int \<Rightarrow> real \<Rightarrow> error + real" where
  "sad_loop data olddata da oa k n cdiff =
     (if k < n then
        (case rd data (k + da) of Inl e \<Rightarrow> Inl e | Inr a \<Rightarrow>
        (case rd olddata (k + oa) of Inl e \<Rightarrow> Inl e | Inr b \<Rightarrow>
           sad_loop data olddata da oa (k + 1) n (cdiff + \<bar>a - b\<bar>)))
      else Inr cdiff)"
  by pat_completeness auto
termination
  by (relation "measure (\<lambda>(data, olddata, da, oa, k, n, cdiff). nat (n - k))") auto

declare sad_loop.simps [simp del]

text \<open>The divisor \<^verbatim>\<open>(cwl - offset)\<close> and the division \<^verbatim>\<open>cdiff /= (1.0 * (cwl - offset))\<close>.
  With a zero divisor the IEEE quotient is no number (the sum is \<open>0.0\<close> then, as the
  inner loop has not run, so the quotient is NaN): \<open>None\<close>.\<close>

definition denominator :: "int \<Rightarrow> int \<Rightarrow> int" where
  "denominator cwl offset = cwl - offset"

definition fdiv :: "real \<Rightarrow> int \<Rightarrow> real option" where
  "fdiv cdiff d = (if d = 0 then None else Some (cdiff / (1 * real_of_int d)))"

text \<open>\<^verbatim>\<open>if (cdiff < mindiff) { mindiff = cdiff; minoffset = off; }\<close>; a comparison
  with NaN is false.\<close>

definition keep_min :: "real option \<Rightarrow> real \<Rightarrow> real \<times> real \<Rightarrow> real \<times> real" where
  "keep_min cdiff off m =
     (case cdiff of None \<Rightarrow> m
      | Some c \<Rightarrow> (if c < fst m then (c, off) else m))"

text \<open>The first scan, \<^verbatim>\<open>for (offset = 0; offset < slen; offset++)\<close> with
  \<^verbatim>\<open>minoffset = -offset\<close>; the pair is \<open>(mindiff, minoffset)\<close>.\<close>

function scan_neg ::
  "real list \<Rightarrow> real list \<Rightarrow> int \<Rightarrow> int \<Rightarrow> real \<times> real \<Rightarrow> error + real \<times> real" where
  "scan_neg data olddata cwl offset m =
     (if offset < slen then
        (case sad_loop data olddata 0 offset 0 (cwl - offset) 0 of Inl e \<Rightarrow> Inl e
         | Inr cdiff \<Rightarrow>
             scan_neg data olddata cwl (offset + 1)
               (keep_min (fdiv cdiff (denominator cwl offset)) (real_of_int (- offset)) m))
      else Inr m)"
  by pat_completeness auto
termination
  by (relation "measure (\<lambda>(data, olddata, cwl, offset, m). nat (slen - offset))") auto

declare scan_neg.simps [simp del]

text \<open>The second scan, with \<^verbatim>\<open>minoffset = offset\<close>.\<close>

function scan_pos ::
  "real list \<Rightarrow> real list \<Rightarrow> int \<Rightarrow> int \<Rightarrow> real \<times> real \<Rightarrow> error + real \<times> real" where
  "scan_pos data olddata cwl offset m =
     (if offset < slen then
        (case sad_loop data olddata offset 0 0 (cwl - offset) 0 of Inl e \<Rightarrow> Inl e
         | Inr cdiff \<Rightarrow>
             scan_pos data olddata cwl (offset + 1)
               (keep_min (fdiv cdiff (denominator cwl offset)) (real_of_int offset) m))
      else Inr m)"
  by pat_completeness auto
termination
  by (relation "measure (\<lambda>(data, olddata, cwl, offset, m). nat (slen - offset))") auto

declare scan_pos.simps [simp del]

text \<open>Both scans, from \<^verbatim>\<open>mindiff = 1e6\<close> and \<^verbatim>\<open>minoffset = 0\<close>.\<close>

definition best_shift :: "real list \<Rightarrow> real list \<Rightarrow> int \<Rightarrow> error + real \<times> real" where
  "best_shift data olddata cwl =
     (case scan_neg data olddata cwl 0 (1000000, 0) of Inl e \<Rightarrow> Inl e
      | Inr m \<Rightarrow> scan_pos data olddata cwl 0 m)"

text \<open>\<^verbatim>\<open>visual_odo\<close> returns the new previous profile and the values written to
  \<^verbatim>\<open>*vtrans_ms\<close> and \<^verbatim>\<open>*vrot_rads\<close>. The division by \<^verbatim>\<open>IMAGE_WIDTH\<close> has a
  non-finite result when the width is zero.\<close>

definition visual_odo ::
  "visual_odometry \<Rightarrow> real list \<Rightarrow> 16 word \<Rightarrow> real list \<Rightarrow> error + real list \<times> real \<times> real" where
  "visual_odo st data width olddata =
     (let cwl = int (unat width) in
      case best_shift data olddata cwl of Inl e \<Rightarrow> Inl e
      | Inr (mindiff, minoffset) \<Rightarrow>
      (case copy_loop 0 (unat width) data olddata of Inl e \<Rightarrow> Inl e
      | Inr olddata' \<Rightarrow>
         if IMAGE_WIDTH st = 0 then Inl NonFinite
         else
           let vrot_rads = minoffset * CAMERA_FOV_DEG st / real_of_int (IMAGE_WIDTH st)
                             * CAMERA_HZ st * M_PI / 180;
               vtrans_ms = mindiff * VTRANS_SCALING st;
               vtrans_ms = (if vtrans_ms > VTRANS_MAX st then VTRANS_MAX st else vtrans_ms)
           in Inr (olddata', vtrans_ms, vrot_rads)))"

section \<open>The profile extractor\<close>

text \<open>The zeroing loop \<^verbatim>\<open>for (int i = 0; i < TEMPLATE_X_SIZE; i++) current_view[i] = 0;\<close>.\<close>

function zero_loop :: "nat \<Rightarrow> int \<Rightarrow> real list \<Rightarrow> error + real list" where
  "zero_loop i TEMPLATE_X_SIZE current_view =
     (if int i < TEMPLATE_X_SIZE then
        (if i < length current_view
         then zero_loop (Suc i) TEMPLATE_X_SIZE (current_view[i := 0])
         else Inl OutOfBounds)
      else Inr current_view)"
  by pat_completeness auto
termination
  by (relation "measure (\<lambda>(i, n, cv). nat (n - int i))") auto

declare zero_loop.simps [simp del]

text \<open>What one pixel adds to the running sum. The two branches of the source (greyscale
  and RGB) are the same loop nest and differ in this read and in the divisor only, so the
  model passes the flag down to here: \<^verbatim>\<open>pos = (x + y * IMAGE_WIDTH)\<close> and one byte, or
  \<^verbatim>\<open>pos = (x + y * IMAGE_WIDTH) * 3\<close> and the three bytes from \<open>pos\<close>.\<close>

definition pixel :: "byte list \<Rightarrow> bool \<Rightarrow> int \<Rightarrow> int \<Rightarrow> int \<Rightarrow> error + real" where
  "pixel view_rgb grayscale image_width x y =
     (if grayscale then
        (let pos = x + y * image_width in
         case rd view_rgb pos of Inl e \<Rightarrow> Inl e
         | Inr b \<Rightarrow> Inr (real (unat b)))
      else
        (let pos = (x + y * image_width) * 3 in
         case rd view_rgb pos of Inl e \<Rightarrow> Inl e | Inr b0 \<Rightarrow>
         (case rd view_rgb (pos + 1) of Inl e \<Rightarrow> Inl e | Inr b1 \<Rightarrow>
         (case rd view_rgb (pos + 2) of Inl e \<Rightarrow> Inl e | Inr b2 \<Rightarrow>
            Inr (real (unat b0) + real (unat b1) + real (unat b2))))))"

text \<open>\<^verbatim>\<open>for (int y = y_block; y < (y_block + y_block_size); y++)\<close>; \<open>acc\<close> is the
  value of \<^verbatim>\<open>current_view[data_next]\<close>.\<close>

function loop_y ::
  "byte list \<Rightarrow> bool \<Rightarrow> int \<Rightarrow> int \<Rightarrow> int \<Rightarrow> int \<Rightarrow> real \<Rightarrow> error + real" where
  "loop_y view_rgb grayscale image_width x y y_end acc =
     (if y < y_end then
        (case pixel view_rgb grayscale image_width x y of Inl e \<Rightarrow> Inl e
         | Inr v \<Rightarrow> loop_y view_rgb grayscale image_width x (y + 1) y_end (acc + v))
      else Inr acc)"
  by pat_completeness auto
termination
  by (relation "measure (\<lambda>(view_rgb, grayscale, image_width, x, y, y_end, acc). nat (y_end - y))")
     auto

declare loop_y.simps [simp del]

text \<open>\<^verbatim>\<open>for (int x = x_block; x < (x_block + x_block_size); x++)\<close>.\<close>

function loop_x ::
  "byte list \<Rightarrow> bool \<Rightarrow> int \<Rightarrow> int \<Rightarrow> int \<Rightarrow> int \<Rightarrow> int \<Rightarrow> real \<Rightarrow> error + real" where
  "loop_x view_rgb grayscale image_width x x_end y_block y_block_size acc =
     (if x < x_end then
        (case loop_y view_rgb grayscale image_width x y_block (y_block + y_block_size) acc of
           Inl e \<Rightarrow> Inl e
         | Inr acc' \<Rightarrow>
             loop_x view_rgb grayscale image_width (x + 1) x_end y_block y_block_size acc')
      else Inr acc)"
  by pat_completeness auto
termination
  by (relation "measure (\<lambda>(view_rgb, grayscale, image_width, x, x_end, r). nat (x_end - x))")
     auto

declare loop_x.simps [simp del]

text \<open>The loop over the column blocks,
  \<^verbatim>\<open>for (x_block = X_RANGE_MIN, x_block_count = 0; x_block_count < TEMPLATE_X_SIZE;
        x_block += x_block_size, x_block_count++)\<close>: the sum of the block, the two divisions
  (by \<^verbatim>\<open>255.0\<close> or \<^verbatim>\<open>255.0 * 3.0\<close>, then by \<^verbatim>\<open>x_block_size * y_block_size\<close>) and
  \<^verbatim>\<open>data_next++\<close>. A block of no pixels makes the second quotient \<open>0.0 / 0\<close>.\<close>

function loop_x_block ::
  "byte list \<Rightarrow> bool \<Rightarrow> int \<Rightarrow> int \<Rightarrow> int \<Rightarrow> int \<Rightarrow> int \<Rightarrow> int \<Rightarrow> nat \<Rightarrow> nat \<Rightarrow> real list
   \<Rightarrow> error + real list \<times> nat" where
  "loop_x_block view_rgb grayscale image_width TEMPLATE_X_SIZE x_block_size y_block y_block_size
       x_block x_block_count data_next current_view =
     (if int x_block_count < TEMPLATE_X_SIZE then
        (if data_next < length current_view then
           (case loop_x view_rgb grayscale image_width x_block (x_block + x_block_size)
                   y_block y_block_size (current_view ! data_next) of
              Inl e \<Rightarrow> Inl e
            | Inr s \<Rightarrow>
                if x_block_size * y_block_size = 0 then Inl NonFinite
                else
                  loop_x_block view_rgb grayscale image_width TEMPLATE_X_SIZE x_block_size
                    y_block y_block_size (x_block + x_block_size) (Suc x_block_count)
                    (Suc data_next)
                    (current_view[data_next :=
                       s / (if grayscale then 255 else 255 * 3)
                         / real_of_int (x_block_size * y_block_size)]))
         else Inl OutOfBounds)
      else Inr (current_view, data_next))"
  by pat_completeness auto
termination
  by (relation "measure (\<lambda>(view_rgb, grayscale, image_width, TEMPLATE_X_SIZE, x_block_size,
         y_block, y_block_size, x_block, x_block_count, r). nat (TEMPLATE_X_SIZE - int x_block_count))")
     auto

declare loop_x_block.simps [simp del]

text \<open>The loop over the row blocks,
  \<^verbatim>\<open>for (y_block = Y_RANGE_MIN, y_block_count = 0; y_block_count < TEMPLATE_Y_SIZE;
        y_block += y_block_size, y_block_count++)\<close>.\<close>

function loop_y_block ::
  "byte list \<Rightarrow> bool \<Rightarrow> int \<Rightarrow> int \<Rightarrow> int \<Rightarrow> int \<Rightarrow> int \<Rightarrow> int \<Rightarrow> int \<Rightarrow> nat \<Rightarrow> nat \<Rightarrow> real list
   \<Rightarrow> error + real list" where
  "loop_y_block view_rgb grayscale image_width TEMPLATE_X_SIZE TEMPLATE_Y_SIZE X_RANGE_MIN
       x_block_size y_block_size y_block y_block_count data_next current_view =
     (if int y_block_count < TEMPLATE_Y_SIZE then
        (case loop_x_block view_rgb grayscale image_width TEMPLATE_X_SIZE x_block_size
                y_block y_block_size X_RANGE_MIN 0 data_next current_view of
           Inl e \<Rightarrow> Inl e
         | Inr (current_view', data_next') \<Rightarrow>
             loop_y_block view_rgb grayscale image_width TEMPLATE_X_SIZE TEMPLATE_Y_SIZE
               X_RANGE_MIN x_block_size y_block_size (y_block + y_block_size)
               (Suc y_block_count) data_next' current_view')
      else Inr current_view)"
  by pat_completeness auto
termination
  by (relation "measure (\<lambda>(view_rgb, grayscale, image_width, TEMPLATE_X_SIZE, TEMPLATE_Y_SIZE,
         X_RANGE_MIN, x_block_size, y_block_size, y_block, y_block_count, r).
         nat (TEMPLATE_Y_SIZE - int y_block_count))")
     auto

declare loop_y_block.simps [simp del]

text \<open>\<^verbatim>\<open>convert_view_to_view_template\<close>; the member \<^verbatim>\<open>IMAGE_WIDTH\<close> it reads is the
  first argument. \<^verbatim>\<open>TEMPLATE_X_SIZE\<close> and \<^verbatim>\<open>TEMPLATE_Y_SIZE\<close> are unsigned, so both
  block sizes are computed by unsigned division and converted back to \<^verbatim>\<open>int\<close>; the
  unsigned division by a \<^verbatim>\<open>TEMPLATE_X_SIZE\<close> of zero is undefined (a trap).\<close>

definition convert_view_to_view_template ::
  "int \<Rightarrow> real list \<Rightarrow> byte list \<Rightarrow> bool \<Rightarrow> int \<Rightarrow> int \<Rightarrow> int \<Rightarrow> int \<Rightarrow> error + real list" where
  "convert_view_to_view_template image_width current_view view_rgb grayscale
       X_RANGE_MIN X_RANGE_MAX Y_RANGE_MIN Y_RANGE_MAX =
     (let TEMPLATE_Y_SIZE = 1;
          TEMPLATE_X_SIZE = to_unsigned (X_RANGE_MAX - X_RANGE_MIN)
      in case zero_loop 0 TEMPLATE_X_SIZE current_view of Inl e \<Rightarrow> Inl e
         | Inr current_view0 \<Rightarrow>
             let sub_range_x = X_RANGE_MAX - X_RANGE_MIN;
                 sub_range_y = Y_RANGE_MAX - Y_RANGE_MIN
             in if TEMPLATE_X_SIZE = 0 then Inl DivideByZero
                else
                  let x_block_size = to_int (to_unsigned sub_range_x div TEMPLATE_X_SIZE);
                      y_block_size = to_int (to_unsigned sub_range_y div TEMPLATE_Y_SIZE)
                  in loop_y_block view_rgb grayscale image_width TEMPLATE_X_SIZE TEMPLATE_Y_SIZE
                       X_RANGE_MIN x_block_size y_block_size Y_RANGE_MIN 0 0 current_view0)"

section \<open>One frame\<close>

text \<open>The block \<^verbatim>\<open>if (first) { ... first = false; }\<close> of \<^verbatim>\<open>on_image\<close>.\<close>

definition seed_previous :: "visual_odometry \<Rightarrow> error + visual_odometry" where
  "seed_previous st =
     (if first st then
        (case copy_loop 0 (length (vtrans_profile st)) (vtrans_profile st)
                (vtrans_prev_profile st) of Inl e \<Rightarrow> Inl e
         | Inr tpp \<Rightarrow>
        (case copy_loop 0 (length (vrot_profile st)) (vrot_profile st)
                (vrot_prev_profile st) of Inl e \<Rightarrow> Inl e
         | Inr rpp \<Rightarrow>
             Inr (st\<lparr>vtrans_prev_profile := tpp, vrot_prev_profile := rpp, first := False\<rparr>)))
      else Inr st)"

text \<open>\<^verbatim>\<open>on_image\<close> returns the new state of the instance and the values left in
  \<^verbatim>\<open>*vtrans_ms\<close> and \<^verbatim>\<open>*vrot_rads\<close>. The width handed to \<^verbatim>\<open>visual_odo\<close> is the
  size of the profile converted to \<^verbatim>\<open>unsigned short\<close>; the two dimensions are
  \<^verbatim>\<open>unsigned int\<close> and are converted to the \<^verbatim>\<open>int\<close> members.\<close>

definition on_image ::
  "visual_odometry \<Rightarrow> byte list \<Rightarrow> bool \<Rightarrow> 32 word \<Rightarrow> 32 word \<Rightarrow>
   error + visual_odometry \<times> real \<times> real" where
  "on_image st data greyscale image_width image_height =
     (case seed_previous (st\<lparr>IMAGE_WIDTH := sint image_width, IMAGE_HEIGHT := sint image_height\<rparr>) of
        Inl e \<Rightarrow> Inl e
      | Inr st1 \<Rightarrow>
     (case convert_view_to_view_template (IMAGE_WIDTH st1) (vtrans_profile st1) data greyscale
             (VTRANS_IMAGE_X_MIN st1) (VTRANS_IMAGE_X_MAX st1)
             (VTRANS_IMAGE_Y_MIN st1) (VTRANS_IMAGE_Y_MAX st1) of
        Inl e \<Rightarrow> Inl e
      | Inr tp \<Rightarrow>
     (case visual_odo st1 tp (of_nat (length tp)) (vtrans_prev_profile st1) of
        Inl e \<Rightarrow> Inl e
      | Inr (tpp, vtrans_ms, dummy) \<Rightarrow>
     (case convert_view_to_view_template (IMAGE_WIDTH st1) (vrot_profile st1) data greyscale
             (VROT_IMAGE_X_MIN st1) (VROT_IMAGE_X_MAX st1)
             (VROT_IMAGE_Y_MIN st1) (VROT_IMAGE_Y_MAX st1) of
        Inl e \<Rightarrow> Inl e
      | Inr rp \<Rightarrow>
     (case visual_odo st1 rp (of_nat (length rp)) (vrot_prev_profile st1) of
        Inl e \<Rightarrow> Inl e
      | Inr (rpp, dummy, vrot_rads) \<Rightarrow>
          Inr (st1\<lparr>vtrans_profile := tp, vtrans_prev_profile := tpp,
                    vrot_profile := rp, vrot_prev_profile := rpp\<rparr>,
               vtrans_ms, vrot_rads))))))"

text \<open>
  The two calls of \<^verbatim>\<open>visual_odo\<close> in \<^verbatim>\<open>on_image\<close>, seen from the instance:
  \<^verbatim>\<open>data\<close> points to the current profile of a region and \<^verbatim>\<open>olddata\<close> to its
  previous profile, both vectors of the instance, and the width is the size of the current
  profile. \<^verbatim>\<open>visual_odo\<close> assigns to \<^verbatim>\<open>olddata[i]\<close>, \<^verbatim>\<open>*vrot_rads\<close> and
  \<^verbatim>\<open>*vtrans_ms\<close> and to nothing else, so the instance after the call is the instance
  before it with that previous profile replaced.
\<close>

datatype region = Translation | Rotation

definition current_profile :: "region \<Rightarrow> visual_odometry \<Rightarrow> real list" where
  "current_profile r st = (case r of Translation \<Rightarrow> vtrans_profile st | Rotation \<Rightarrow> vrot_profile st)"

definition previous_profile :: "region \<Rightarrow> visual_odometry \<Rightarrow> real list" where
  "previous_profile r st =
     (case r of Translation \<Rightarrow> vtrans_prev_profile st | Rotation \<Rightarrow> vrot_prev_profile st)"

definition set_previous_profile :: "region \<Rightarrow> real list \<Rightarrow> visual_odometry \<Rightarrow> visual_odometry" where
  "set_previous_profile r olddata st =
     (case r of Translation \<Rightarrow> st\<lparr>vtrans_prev_profile := olddata\<rparr>
      | Rotation \<Rightarrow> st\<lparr>vrot_prev_profile := olddata\<rparr>)"

definition visual_odo_call ::
  "region \<Rightarrow> visual_odometry \<Rightarrow> error + visual_odometry \<times> real \<times> real" where
  "visual_odo_call r st =
     (case visual_odo st (current_profile r st) (of_nat (length (current_profile r st)))
             (previous_profile r st) of
        Inl e \<Rightarrow> Inl e
      | Inr (olddata', vtrans_ms, vrot_rads) \<Rightarrow>
          Inr (set_previous_profile r olddata' st, vtrans_ms, vrot_rads))"

section \<open>Notions of the specification\<close>

text \<open>
  The specification describes the estimator as a search over candidates: for each offset the
  mean absolute difference of the two profiles, the first scan (previous profile shifted,
  offset recorded negated) before the second (current profile shifted), and the first
  strict minimum kept. The definitions below follow these words; \<open>best_shift_select\<close>
  relates them to the loops of the source.
\<close>

definition sum_abs_diff :: "real list \<Rightarrow> real list \<Rightarrow> nat \<Rightarrow> nat \<Rightarrow> int \<Rightarrow> real" where
  "sum_abs_diff data olddata da oa n =
     (\<Sum>k\<leftarrow>[0..<nat n]. \<bar>data ! (k + da) - olddata ! (k + oa)\<bar>)"

definition mean_abs_diff :: "real list \<Rightarrow> real list \<Rightarrow> nat \<Rightarrow> nat \<Rightarrow> int \<Rightarrow> real option" where
  "mean_abs_diff data olddata da oa n = fdiv (sum_abs_diff data olddata da oa n) n"

definition candidates_neg :: "real list \<Rightarrow> real list \<Rightarrow> int \<Rightarrow> nat \<Rightarrow> (real option \<times> real) list" where
  "candidates_neg data olddata cwl from =
     map (\<lambda>offset. (mean_abs_diff data olddata 0 offset (cwl - int offset), - real offset))
       [from..<40]"

definition candidates_pos :: "real list \<Rightarrow> real list \<Rightarrow> int \<Rightarrow> nat \<Rightarrow> (real option \<times> real) list" where
  "candidates_pos data olddata cwl from =
     map (\<lambda>offset. (mean_abs_diff data olddata offset 0 (cwl - int offset), real offset))
       [from..<40]"

definition candidates :: "real list \<Rightarrow> real list \<Rightarrow> int \<Rightarrow> (real option \<times> real) list" where
  "candidates data olddata cwl =
     candidates_neg data olddata cwl 0 @ candidates_pos data olddata cwl 0"

definition select_min :: "real \<times> real \<Rightarrow> (real option \<times> real) list \<Rightarrow> real \<times> real" where
  "select_min m cs = foldl (\<lambda>m (cdiff, off). keep_min cdiff off m) m cs"

section \<open>Example inputs\<close>

text \<open>
  A camera whose two regions are the whole of a 40 by 1 image, as the constructor builds
  it; a greyscale frame that is white but for its first pixel; the profile of that frame;
  the camera after the frame; the same camera with a negative field of view; the camera
  between the extraction of the rotation profile and the second call of the estimator; the
  first camera with other values in the two dimension fields; and a profile shorter than the
  search radius.
\<close>

definition demo_image :: "byte list" where
  "demo_image = 1 # replicate 39 255"

definition demo_zero :: "real list" where
  "demo_zero = replicate 40 0"

definition demo_profile :: "real list" where
  "demo_profile = (1 / 255) # replicate 39 1"

definition demo_camera :: visual_odometry where
  "demo_camera =
     \<lparr> VTRANS_IMAGE_X_MIN = 0, VTRANS_IMAGE_X_MAX = 40,
       VTRANS_IMAGE_Y_MIN = 0, VTRANS_IMAGE_Y_MAX = 1,
       VROT_IMAGE_X_MIN = 0, VROT_IMAGE_X_MAX = 40,
       VROT_IMAGE_Y_MIN = 0, VROT_IMAGE_Y_MAX = 1,
       CAMERA_FOV_DEG = 50, CAMERA_HZ = 10, VTRANS_SCALING = 1, VTRANS_MAX = 10,
       IMAGE_WIDTH = 0, IMAGE_HEIGHT = 0,
       vtrans_profile = demo_zero, vtrans_prev_profile = demo_zero,
       vrot_profile = demo_zero, vrot_prev_profile = demo_zero,
       first = True \<rparr>"

definition demo_camera_after :: visual_odometry where
  "demo_camera_after =
     demo_camera \<lparr> IMAGE_WIDTH := 40, IMAGE_HEIGHT := 1,
       vtrans_profile := demo_profile, vtrans_prev_profile := demo_profile,
       vrot_profile := demo_profile, vrot_prev_profile := demo_profile,
       first := False \<rparr>"

definition demo_camera_mirrored :: visual_odometry where
  "demo_camera_mirrored = demo_camera_after\<lparr>CAMERA_FOV_DEG := - 50\<rparr>"

definition demo_camera_before_rotation :: visual_odometry where
  "demo_camera_before_rotation = demo_camera_after\<lparr>vrot_prev_profile := demo_zero\<rparr>"


definition short_profile :: "real list" where
  "short_profile = replicate 10 0"

section \<open>Buffers and loops\<close>

lemma rd_Inr: "0 \<le> i \<Longrightarrow> i < int (length xs) \<Longrightarrow> rd xs i = Inr (xs ! nat i)"
  by (simp add: rd_def)

lemma byte_range: "0 \<le> real (unat (b :: byte)) \<and> real (unat b) \<le> 255"
proof -
  have "unat b < 2 ^ 8" using unsigned_less [of b, where 'a = nat] by simp
  then have "unat b \<le> 255" by simp
  then have "real (unat b) \<le> real 255" by (simp only: of_nat_le_iff)
  moreover have "0 \<le> real (unat b)" by (rule of_nat_0_le_iff)
  ultimately show ?thesis by simp
qed

text \<open>The copy loop either runs out of one of the buffers or overwrites exactly the
  first \<open>n\<close> elements.\<close>

lemma copy_loop_result:
  "copy_loop i n src dst = Inr dst' \<Longrightarrow> i \<le> n \<Longrightarrow>
     (i < n \<longrightarrow> n \<le> length src \<and> n \<le> length dst) \<and> length dst' = length dst \<and>
     take i dst' = take i dst \<and> drop n dst' = drop n dst \<and>
     (\<forall>j. i \<le> j \<and> j < n \<longrightarrow> dst' ! j = src ! j)"
proof (induction i n src dst rule: copy_loop.induct)
  case (1 i n src dst)
  show ?case
  proof (cases "i < n")
    case False
    with "1.prems" show ?thesis by (simp add: copy_loop.simps [of i n src dst])
  next
    case True
    with "1.prems" have ok: "i < length src" "i < length dst"
      by (auto simp: copy_loop.simps [of i n src dst] split: if_splits)
    with True "1.prems" have run: "copy_loop (Suc i) n src (dst[i := src ! i]) = Inr dst'"
      by (simp add: copy_loop.simps [of i n src dst])
    from True have le: "Suc i \<le> n" by simp
    from ok have ok': "i < length src \<and> i < length dst" by simp
    note ih0 = "1.IH" [OF True ok' run le]
    have ih: "Suc i < n \<longrightarrow> n \<le> length src \<and> n \<le> length dst" "length dst' = length dst"
      "take (Suc i) dst' = take (Suc i) (dst[i := src ! i])"
      "drop n dst' = drop n (dst[i := src ! i])"
      "\<forall>j. Suc i \<le> j \<and> j < n \<longrightarrow> dst' ! j = src ! j"
      using ih0 by simp_all
    have bounds: "n \<le> length src \<and> n \<le> length dst"
      using ih(1) ok True by (cases "Suc i < n") auto
    have t: "take i dst' = take i dst"
    proof -
      have "take i dst' = take i (take (Suc i) dst')" by (simp add: min_def)
      also have "\<dots> = take i (take (Suc i) (dst[i := src ! i]))" by (simp only: ih(3))
      also have "\<dots> = take i dst" by (simp add: min_def)
      finally show ?thesis .
    qed
    have d: "drop n dst' = drop n dst" using ih(4) True by simp
    have "dst' ! i = (take (Suc i) dst') ! i" by simp
    also have "\<dots> = (take (Suc i) (dst[i := src ! i])) ! i" by (simp only: ih(3))
    also have "\<dots> = src ! i" using ok by simp
    finally have at_i: "dst' ! i = src ! i" .
    have "\<forall>j. i \<le> j \<and> j < n \<longrightarrow> dst' ! j = src ! j"
    proof (intro allI impI)
      fix j assume "i \<le> j \<and> j < n"
      then show "dst' ! j = src ! j" using at_i ih(5) by (cases "j = i") auto
    qed
    with ih(2) bounds t d show ?thesis by simp
  qed
qed

lemma copy_loop_ok:
  "i \<le> n \<Longrightarrow> n \<le> length src \<Longrightarrow> n \<le> length dst \<Longrightarrow> \<exists>dst'. copy_loop i n src dst = Inr dst'"
proof (induction i n src dst rule: copy_loop.induct)
  case (1 i n src dst)
  show ?case
  proof (cases "i < n")
    case False
    then show ?thesis by (simp add: copy_loop.simps [of i n src dst])
  next
    case True
    with "1.prems" have ok: "i < length src \<and> i < length dst" by simp
    from "1.IH" [OF True ok] "1.prems" True
    obtain dst' where "copy_loop (Suc i) n src (dst[i := src ! i]) = Inr dst'" by auto
    with True ok show ?thesis by (simp add: copy_loop.simps [of i n src dst])
  qed
qed

lemma copy_loop_same: "copy_loop 0 (length xs) xs xs = Inr xs"
proof -
  from copy_loop_ok [of 0 "length xs" xs xs]
  obtain ys where ys: "copy_loop 0 (length xs) xs xs = Inr ys" by auto
  from copy_loop_result [OF ys]
  have "length ys = length xs" "\<forall>j. j < length xs \<longrightarrow> ys ! j = xs ! j" by simp_all
  then have "ys = xs" by (simp add: nth_equalityI)
  with ys show ?thesis by simp
qed

lemma sad_loop_ok:
  "0 \<le> k \<Longrightarrow> 0 \<le> da \<Longrightarrow> 0 \<le> oa \<Longrightarrow> n + da \<le> int (length data) \<Longrightarrow>
   n + oa \<le> int (length olddata) \<Longrightarrow>
   sad_loop data olddata da oa k n cdiff =
     Inr (cdiff + (\<Sum>j\<leftarrow>[nat k..<nat n]. \<bar>data ! (j + nat da) - olddata ! (j + nat oa)\<bar>))"
proof (induction data olddata da oa k n cdiff rule: sad_loop.induct)
  case (1 data olddata da oa k n cdiff)
  show ?case
  proof (cases "k < n")
    case False
    then show ?thesis by (simp add: sad_loop.simps [of data olddata da oa k n cdiff])
  next
    case True
    with "1.prems" have r1: "rd data (k + da) = Inr (data ! nat (k + da))"
      and r2: "rd olddata (k + oa) = Inr (olddata ! nat (k + oa))"
      by (simp_all add: rd_Inr)
    have k1: "0 \<le> k + 1" using "1.prems"(1) by simp
    have ih: "sad_loop data olddata da oa (k + 1) n (cdiff + \<bar>data ! nat (k + da) - olddata ! nat (k + oa)\<bar>) =
      Inr (cdiff + \<bar>data ! nat (k + da) - olddata ! nat (k + oa)\<bar> +
         (\<Sum>j\<leftarrow>[nat (k + 1)..<nat n]. \<bar>data ! (j + nat da) - olddata ! (j + nat oa)\<bar>))"
      by (rule "1.IH" [OF True r1 r2 k1 "1.prems"(2) "1.prems"(3) "1.prems"(4) "1.prems"(5)])
    have sk: "nat (k + 1) = Suc (nat k)" using "1.prems"(1) by arith
    have lt: "nat k < nat n" using True "1.prems"(1) by arith
    have up: "[nat k..<nat n] = nat k # [nat (k + 1)..<nat n]"
      by (simp only: sk upt_conv_Cons [OF lt])
    have idx: "nat (k + da) = nat k + nat da" "nat (k + oa) = nat k + nat oa"
      using "1.prems"(1,2,3) by arith+
    have "sad_loop data olddata da oa k n cdiff =
       sad_loop data olddata da oa (k + 1) n (cdiff + \<bar>data ! nat (k + da) - olddata ! nat (k + oa)\<bar>)"
      by (simp add: sad_loop.simps [of data olddata da oa k n cdiff] True r1 r2)
    also note ih
    finally show ?thesis by (simp only: up idx list.map sum_list.Cons add.assoc)
  qed
qed

lemma sad_loop_sum:
  "0 \<le> da \<Longrightarrow> 0 \<le> oa \<Longrightarrow> n + da \<le> int (length data) \<Longrightarrow> n + oa \<le> int (length olddata) \<Longrightarrow>
   sad_loop data olddata da oa 0 n 0 = Inr (sum_abs_diff data olddata (nat da) (nat oa) n)"
  using sad_loop_ok [of 0 da oa n data olddata 0] by (simp add: sum_abs_diff_def)

section \<open>The two scans select the first minimum\<close>

lemma select_min_Nil: "select_min m [] = m"
  by (simp add: select_min_def)

lemma select_min_Cons: "select_min m ((c, off) # cs) = select_min (keep_min c off m) cs"
  by (simp add: select_min_def)

lemma select_min_append: "select_min m (cs @ ds) = select_min (select_min m cs) ds"
  by (simp add: select_min_def)

lemma select_min_snoc: "select_min m (cs @ [(c, off)]) = keep_min c off (select_min m cs)"
  by (simp add: select_min_def)

lemma scan_neg_select:
  "0 \<le> offset \<Longrightarrow> cwl \<le> int (length data) \<Longrightarrow> cwl \<le> int (length olddata) \<Longrightarrow>
   scan_neg data olddata cwl offset m =
     Inr (select_min m (candidates_neg data olddata cwl (nat offset)))"
proof (induction data olddata cwl offset m rule: scan_neg.induct)
  case (1 data olddata cwl offset m)
  show ?case
  proof (cases "offset < slen")
    case False
    then have "[nat offset..<40] = []" by (simp add: slen_def)
    then have "candidates_neg data olddata cwl (nat offset) = []"
      by (simp add: candidates_neg_def)
    then show ?thesis using False
      by (simp add: scan_neg.simps [of data olddata cwl offset m] select_min_Nil)
  next
    case True
    let ?s = "sum_abs_diff data olddata (nat 0) (nat offset) (cwl - offset)"
    let ?m = "keep_min (fdiv ?s (denominator cwl offset)) (real_of_int (- offset)) m"
    have sad: "sad_loop data olddata 0 offset 0 (cwl - offset) 0 = Inr ?s"
      using "1.prems" by (intro sad_loop_sum) simp_all
    have o1: "0 \<le> offset + 1" using "1.prems"(1) by simp
    have lt: "nat offset < 40" using True "1.prems"(1) by (simp add: slen_def)
    have sk: "nat (offset + 1) = Suc (nat offset)" using "1.prems"(1) by arith
    have up: "[nat offset..<40] = nat offset # [nat (offset + 1)..<40]"
      by (simp only: sk upt_conv_Cons [OF lt])
    have io: "int (nat offset) = offset" using "1.prems"(1) by simp
    have r: "real_of_int (- offset) = - real (nat offset)" using "1.prems"(1) by simp
    have md: "mean_abs_diff data olddata 0 (nat offset) (cwl - offset) =
        fdiv ?s (denominator cwl offset)"
      by (simp add: mean_abs_diff_def denominator_def)
    have c: "candidates_neg data olddata cwl (nat offset) =
        (fdiv ?s (denominator cwl offset), real_of_int (- offset)) #
        candidates_neg data olddata cwl (nat (offset + 1))"
      unfolding candidates_neg_def by (simp only: up list.map io md r)
    have ih: "scan_neg data olddata cwl (offset + 1) ?m =
       Inr (select_min ?m (candidates_neg data olddata cwl (nat (offset + 1))))"
      by (rule "1.IH" [OF True sad o1 "1.prems"(2) "1.prems"(3)])
    have "scan_neg data olddata cwl offset m = scan_neg data olddata cwl (offset + 1) ?m"
      by (simp add: scan_neg.simps [of data olddata cwl offset m] True sad)
    also note ih
    finally show ?thesis by (simp only: c select_min_Cons)
  qed
qed

lemma scan_pos_select:
  "0 \<le> offset \<Longrightarrow> cwl \<le> int (length data) \<Longrightarrow> cwl \<le> int (length olddata) \<Longrightarrow>
   scan_pos data olddata cwl offset m =
     Inr (select_min m (candidates_pos data olddata cwl (nat offset)))"
proof (induction data olddata cwl offset m rule: scan_pos.induct)
  case (1 data olddata cwl offset m)
  show ?case
  proof (cases "offset < slen")
    case False
    then have "[nat offset..<40] = []" by (simp add: slen_def)
    then have "candidates_pos data olddata cwl (nat offset) = []"
      by (simp add: candidates_pos_def)
    then show ?thesis using False
      by (simp add: scan_pos.simps [of data olddata cwl offset m] select_min_Nil)
  next
    case True
    let ?s = "sum_abs_diff data olddata (nat offset) (nat 0) (cwl - offset)"
    let ?m = "keep_min (fdiv ?s (denominator cwl offset)) (real_of_int (offset)) m"
    have sad: "sad_loop data olddata offset 0 0 (cwl - offset) 0 = Inr ?s"
      using "1.prems" by (intro sad_loop_sum) simp_all
    have o1: "0 \<le> offset + 1" using "1.prems"(1) by simp
    have lt: "nat offset < 40" using True "1.prems"(1) by (simp add: slen_def)
    have sk: "nat (offset + 1) = Suc (nat offset)" using "1.prems"(1) by arith
    have up: "[nat offset..<40] = nat offset # [nat (offset + 1)..<40]"
      by (simp only: sk upt_conv_Cons [OF lt])
    have io: "int (nat offset) = offset" using "1.prems"(1) by simp
    have r: "real_of_int (offset) = real (nat offset)" using "1.prems"(1) by simp
    have md: "mean_abs_diff data olddata (nat offset) 0 (cwl - offset) =
        fdiv ?s (denominator cwl offset)"
      by (simp add: mean_abs_diff_def denominator_def)
    have c: "candidates_pos data olddata cwl (nat offset) =
        (fdiv ?s (denominator cwl offset), real_of_int (offset)) #
        candidates_pos data olddata cwl (nat (offset + 1))"
      unfolding candidates_pos_def by (simp only: up list.map io md r)
    have ih: "scan_pos data olddata cwl (offset + 1) ?m =
       Inr (select_min ?m (candidates_pos data olddata cwl (nat (offset + 1))))"
      by (rule "1.IH" [OF True sad o1 "1.prems"(2) "1.prems"(3)])
    have "scan_pos data olddata cwl offset m = scan_pos data olddata cwl (offset + 1) ?m"
      by (simp add: scan_pos.simps [of data olddata cwl offset m] True sad)
    also note ih
    finally show ?thesis by (simp only: c select_min_Cons)
  qed
qed

lemma best_shift_select:
  "cwl \<le> int (length data) \<Longrightarrow> cwl \<le> int (length olddata) \<Longrightarrow>
   best_shift data olddata cwl = Inr (select_min (1000000, 0) (candidates data olddata cwl))"
  by (simp add: best_shift_def scan_neg_select scan_pos_select candidates_def select_min_append)

lemma keep_min_le: "fst (keep_min c off m) \<le> fst m"
  by (simp add: keep_min_def split: option.split)

lemma keep_min_keeps: "fst m \<le> c \<Longrightarrow> keep_min (Some c) off m = m"
  by (simp add: keep_min_def)

lemma keep_min_None: "keep_min None off m = m"
  by (simp add: keep_min_def)

lemma keep_min_takes: "c < fst m \<Longrightarrow> keep_min (Some c) off m = (c, off)"
  by (simp add: keep_min_def)

lemma keep_min_offset: "\<bar>snd m\<bar> \<le> b \<Longrightarrow> \<bar>off\<bar> \<le> b \<Longrightarrow> \<bar>snd (keep_min c off m)\<bar> \<le> b"
  by (simp add: keep_min_def split: option.split)

lemma select_min_lower:
  "fst (select_min m cs) \<le> fst m \<and>
   (\<forall>j<length cs. \<forall>c. fst (cs ! j) = Some c \<longrightarrow> fst (select_min m cs) \<le> c)"
proof (induction cs rule: rev_induct)
  case Nil
  show ?case by (simp add: select_min_Nil)
next
  case (snoc x cs)
  obtain c off where x: "x = (c, off)" by (cases x)
  let ?r = "select_min m cs"
  have step: "select_min m (cs @ [x]) = keep_min c off ?r"
    by (simp add: x select_min_snoc)
  have le: "fst (keep_min c off ?r) \<le> fst ?r" by (rule keep_min_le)
  have last: "\<forall>v. c = Some v \<longrightarrow> fst (keep_min c off ?r) \<le> v"
    by (simp add: keep_min_def)
  show ?case
  proof (intro conjI allI impI)
    show "fst (select_min m (cs @ [x])) \<le> fst m"
      using snoc.IH le by (simp add: step)
  next
    fix j v
    assume j: "j < length (cs @ [x])" and v: "fst ((cs @ [x]) ! j) = Some v"
    show "fst (select_min m (cs @ [x])) \<le> v"
    proof (cases "j < length cs")
      case True
      with v have "fst (cs ! j) = Some v" by (simp add: nth_append)
      with snoc.IH True have "fst ?r \<le> v" by blast
      with le show ?thesis by (simp add: step)
    next
      case False
      with j have "j = length cs" by simp
      with v have "c = Some v" by (simp add: x)
      with last show ?thesis by (simp add: step)
    qed
  qed
qed

lemma select_min_first:
  "(select_min m cs = m \<and> (\<forall>j<length cs. \<forall>c. fst (cs ! j) = Some c \<longrightarrow> fst m \<le> c)) \<or>
   (\<exists>i<length cs. cs ! i = (Some (fst (select_min m cs)), snd (select_min m cs)) \<and>
      fst (select_min m cs) < fst m \<and>
      (\<forall>j<i. \<forall>c. fst (cs ! j) = Some c \<longrightarrow> fst (select_min m cs) < c) \<and>
      (\<forall>j<length cs. \<forall>c. fst (cs ! j) = Some c \<longrightarrow> fst (select_min m cs) \<le> c))"
  (is "?P cs")
proof (induction cs rule: rev_induct)
  case Nil
  show ?case by (simp add: select_min_Nil)
next
  case (snoc x cs)
  obtain c off where x: "x = (c, off)" by (cases x)
  let ?r = "select_min m cs"
  let ?r' = "select_min m (cs @ [x])"
  have step: "?r' = keep_min c off ?r"
    by (simp add: x select_min_snoc)
  note low = select_min_lower [of m cs]
  note low' = select_min_lower [of m "cs @ [x]"]
  show ?case
  proof (cases "\<exists>v. c = Some v \<and> v < fst ?r")
    case True
    then obtain v where v: "c = Some v" "v < fst ?r" by blast
    then have r': "?r' = (v, off)" by (simp add: step keep_min_takes)
    have at: "(cs @ [x]) ! length cs = (Some (fst ?r'), snd ?r')"
      using r' by (simp add: x v)
    have lt: "fst ?r' < fst m" using v(2) low by (simp add: r')
    have before: "\<forall>j<length cs. \<forall>c. fst ((cs @ [x]) ! j) = Some c \<longrightarrow> fst ?r' < c"
    proof (intro allI impI)
      fix j c' assume j: "j < length cs" and c': "fst ((cs @ [x]) ! j) = Some c'"
      then have "fst (cs ! j) = Some c'" by (simp add: nth_append)
      with low j have "fst ?r \<le> c'" by blast
      with v(2) show "fst ?r' < c'" by (simp add: r')
    qed
    have "length cs < length (cs @ [x])" by simp
    with at lt before low' show ?thesis by blast
  next
    case False
    then have same: "?r' = ?r"
      by (cases c) (simp_all add: step keep_min_None keep_min_keeps)
    from snoc.IH show ?thesis
    proof (elim disjE conjE exE)
      assume a: "?r = m" "\<forall>j<length cs. \<forall>c. fst (cs ! j) = Some c \<longrightarrow> fst m \<le> c"
      have "\<forall>j<length (cs @ [x]). \<forall>c. fst ((cs @ [x]) ! j) = Some c \<longrightarrow> fst m \<le> c"
        using low' same a(1) by simp
      with same a(1) show ?thesis by simp
    next
      fix i
      assume i: "i < length cs" "cs ! i = (Some (fst ?r), snd ?r)" "fst ?r < fst m"
        "\<forall>j<i. \<forall>c. fst (cs ! j) = Some c \<longrightarrow> fst ?r < c"
      have i': "i < length (cs @ [x])" using i(1) by simp
      have at: "(cs @ [x]) ! i = (Some (fst ?r'), snd ?r')"
        using i(1,2) by (simp add: same nth_append)
      have before: "\<forall>j<i. \<forall>c. fst ((cs @ [x]) ! j) = Some c \<longrightarrow> fst ?r' < c"
        using i(1,4) by (simp add: same nth_append)
      have lt: "fst ?r' < fst m" using i(3) by (simp add: same)
      from i' at lt before low' show ?thesis by blast
    qed
  qed
qed

lemma candidates_length: "length (candidates data olddata cwl) = 80"
  by (simp add: candidates_def candidates_neg_def candidates_pos_def)

lemma candidates_nth_neg:
  "offset < 40 \<Longrightarrow> candidates data olddata cwl ! offset =
     (mean_abs_diff data olddata 0 offset (cwl - int offset), - real offset)"
  by (simp add: candidates_def candidates_neg_def candidates_pos_def nth_append del: upt_Suc)

lemma candidates_nth_pos:
  "offset < 40 \<Longrightarrow> candidates data olddata cwl ! (40 + offset) =
     (mean_abs_diff data olddata offset 0 (cwl - int offset), real offset)"
  by (simp add: candidates_def candidates_neg_def candidates_pos_def nth_append del: upt_Suc)

lemma scan_neg_offset:
  "scan_neg data olddata cwl offset m = Inr r \<Longrightarrow> 0 \<le> offset \<Longrightarrow> \<bar>snd m\<bar> \<le> 39 \<Longrightarrow>
   \<bar>snd r\<bar> \<le> 39"
proof (induction data olddata cwl offset m rule: scan_neg.induct)
  case (1 data olddata cwl offset m)
  show ?case
  proof (cases "offset < slen")
    case False
    with "1.prems" show ?thesis
      by (simp add: scan_neg.simps [of data olddata cwl offset m])
  next
    case True
    with "1.prems"(1) obtain cdiff where
      sad: "sad_loop data olddata 0 offset 0 (cwl - offset) 0 = Inr cdiff"
      and run: "scan_neg data olddata cwl (offset + 1)
         (keep_min (fdiv cdiff (denominator cwl offset)) (real_of_int (- offset)) m) = Inr r"
      by (simp add: scan_neg.simps [of data olddata cwl offset m] split: sum.splits)
    have o1: "0 \<le> offset + 1" using "1.prems"(2) by simp
    have "\<bar>real_of_int (- offset)\<bar> \<le> 39" using True "1.prems"(2) by (simp add: slen_def)
    with "1.prems"(3)
    have "\<bar>snd (keep_min (fdiv cdiff (denominator cwl offset)) (real_of_int (- offset)) m)\<bar> \<le> 39"
      by (rule keep_min_offset)
    with "1.IH" [OF True sad run o1] show ?thesis .
  qed
qed

lemma scan_pos_offset:
  "scan_pos data olddata cwl offset m = Inr r \<Longrightarrow> 0 \<le> offset \<Longrightarrow> \<bar>snd m\<bar> \<le> 39 \<Longrightarrow>
   \<bar>snd r\<bar> \<le> 39"
proof (induction data olddata cwl offset m rule: scan_pos.induct)
  case (1 data olddata cwl offset m)
  show ?case
  proof (cases "offset < slen")
    case False
    with "1.prems" show ?thesis
      by (simp add: scan_pos.simps [of data olddata cwl offset m])
  next
    case True
    with "1.prems"(1) obtain cdiff where
      sad: "sad_loop data olddata offset 0 0 (cwl - offset) 0 = Inr cdiff"
      and run: "scan_pos data olddata cwl (offset + 1)
         (keep_min (fdiv cdiff (denominator cwl offset)) (real_of_int offset) m) = Inr r"
      by (simp add: scan_pos.simps [of data olddata cwl offset m] split: sum.splits)
    have o1: "0 \<le> offset + 1" using "1.prems"(2) by simp
    have "\<bar>real_of_int offset\<bar> \<le> 39" using True "1.prems"(2) by (simp add: slen_def)
    with "1.prems"(3)
    have "\<bar>snd (keep_min (fdiv cdiff (denominator cwl offset)) (real_of_int offset) m)\<bar> \<le> 39"
      by (rule keep_min_offset)
    with "1.IH" [OF True sad run o1] show ?thesis .
  qed
qed

lemma best_shift_offset:
  "best_shift data olddata cwl = Inr (mindiff, minoffset) \<Longrightarrow> \<bar>minoffset\<bar> \<le> 39"
proof -
  assume a: "best_shift data olddata cwl = Inr (mindiff, minoffset)"
  then obtain m where n: "scan_neg data olddata cwl 0 (1000000, 0) = Inr m"
    and p: "scan_pos data olddata cwl 0 m = Inr (mindiff, minoffset)"
    by (auto simp: best_shift_def split: sum.splits)
  from scan_neg_offset [OF n] have "\<bar>snd m\<bar> \<le> 39" by simp
  with scan_pos_offset [OF p] show ?thesis by simp
qed

section \<open>The extractor on a valid region\<close>

lemma zero_loop_ok:
  "i \<le> n \<Longrightarrow> n \<le> length cv \<Longrightarrow>
   \<exists>cv'. zero_loop i (int n) cv = Inr cv' \<and> length cv' = length cv \<and>
     (\<forall>j. i \<le> j \<and> j < n \<longrightarrow> cv' ! j = 0) \<and> (\<forall>j<i. cv' ! j = cv ! j)"
proof (induction "n - i" arbitrary: i cv)
  case 0
  then have "\<not> int i < int n" by simp
  then show ?case using 0 by (subst zero_loop.simps) simp
next
  case (Suc k)
  then have lt: "i < n" and len: "i < length cv" by simp_all
  have "k = n - Suc i" using Suc.hyps(2) by simp
  from Suc.hyps(1) [OF this, of "cv[i := 0]"] lt Suc.prems
  obtain cv' where r: "zero_loop (Suc i) (int n) (cv[i := 0]) = Inr cv'"
    "length cv' = length cv" "\<forall>j. Suc i \<le> j \<and> j < n \<longrightarrow> cv' ! j = 0"
    "\<forall>j<Suc i. cv' ! j = (cv[i := 0]) ! j"
    by auto
  have at: "cv' ! i = 0" using r(4) len by simp
  have z: "\<forall>j. i \<le> j \<and> j < n \<longrightarrow> cv' ! j = 0"
  proof (intro allI impI)
    fix j assume "i \<le> j \<and> j < n"
    then show "cv' ! j = 0" using at r(3) by (cases "j = i") auto
  qed
  have b: "\<forall>j<i. cv' ! j = cv ! j" using r(4) by simp
  have "zero_loop i (int n) cv = zero_loop (Suc i) (int n) (cv[i := 0])"
    using lt len by (subst zero_loop.simps) simp
  with r(1,2) z b show ?case by simp
qed

lemma pixel_ok:
  assumes "0 \<le> x" "x < iw" "0 \<le> y" "y < ymax"
    and "(if g then 1 else 3) * iw * ymax \<le> int (length view)"
  shows "\<exists>v. pixel view g iw x y = Inr v \<and> 0 \<le> v \<and> v \<le> (if g then 255 else 255 * 3)"
proof -
  have "y + 1 \<le> ymax" using assms(4) by simp
  moreover have "0 \<le> iw" using assms(1,2) by simp
  ultimately have "(y + 1) * iw \<le> ymax * iw" by (rule mult_right_mono)
  then have up: "x + y * iw < iw * ymax" using assms(2) by (simp add: algebra_simps)
  have "0 \<le> y * iw" using assms(3) \<open>0 \<le> iw\<close> by simp
  then have lo: "0 \<le> x + y * iw" using assms(1) by simp
  show ?thesis
  proof (cases g)
    case True
    with assms(5) up have "x + y * iw < int (length view)" by simp
    with lo have "rd view (x + y * iw) = Inr (view ! nat (x + y * iw))" by (simp add: rd_Inr)
    then show ?thesis using True byte_range [of "view ! nat (x + y * iw)"]
      by (simp add: pixel_def Let_def)
  next
    case False
    let ?p = "(x + y * iw) * 3"
    from False assms(5) up have "?p + 2 < int (length view)" by simp
    with lo have "rd view ?p = Inr (view ! nat ?p)" "rd view (?p + 1) = Inr (view ! nat (?p + 1))"
      "rd view (?p + 2) = Inr (view ! nat (?p + 2))"
      by (simp_all add: rd_Inr)
    then show ?thesis
      using False byte_range [of "view ! nat ?p"] byte_range [of "view ! nat (?p + 1)"]
        byte_range [of "view ! nat (?p + 2)"]
      by (simp add: pixel_def Let_def)
  qed
qed

lemma loop_y_ok:
  assumes "0 \<le> x" "x < iw" "(if g then 1 else 3) * iw * ymax \<le> int (length view)"
  shows "0 \<le> y \<Longrightarrow> y \<le> y_end \<Longrightarrow> y_end \<le> ymax \<Longrightarrow>
     \<exists>s. loop_y view g iw x y y_end acc = Inr s \<and> acc \<le> s \<and>
       s \<le> acc + (if g then 255 else 255 * 3) * real_of_int (y_end - y)"
proof (induction "nat (y_end - y)" arbitrary: y acc)
  case 0
  then have "\<not> y < y_end" by simp
  then show ?case using 0 by (subst loop_y.simps) simp
next
  case (Suc k)
  then have lt: "y < y_end" by simp
  with Suc.prems have "y < ymax" by simp
  from pixel_ok [OF assms(1,2) Suc.prems(1) this assms(3)]
  obtain v where v: "pixel view g iw x y = Inr v" "0 \<le> v" "v \<le> (if g then 255 else 255 * 3)"
    by blast
  have k: "k = nat (y_end - (y + 1))" using Suc.hyps(2) by simp
  from Suc.hyps(1) [OF k, of "acc + v"] Suc.prems lt
  obtain s where s: "loop_y view g iw x (y + 1) y_end (acc + v) = Inr s" "acc + v \<le> s"
    "s \<le> acc + v + (if g then 255 else 255 * 3) * real_of_int (y_end - (y + 1))"
    by auto
  have "loop_y view g iw x y y_end acc = loop_y view g iw x (y + 1) y_end (acc + v)"
    using lt v(1) by (subst loop_y.simps) simp
  moreover have "acc \<le> s" using s(2) v(2) by simp
  moreover have "s \<le> acc + (if g then 255 else 255 * 3) * real_of_int (y_end - y)"
    using s(3) v(3) by (simp add: algebra_simps split: if_splits)
  ultimately show ?case using s(1) by simp
qed

lemma loop_x_column:
  assumes "0 \<le> x" "x < iw" "(if g then 1 else 3) * iw * ymax \<le> int (length view)"
    "0 \<le> y" "0 \<le> h" "y + h \<le> ymax"
  shows "\<exists>s. loop_x view g iw x (x + 1) y h acc = Inr s \<and> acc \<le> s \<and>
       s \<le> acc + (if g then 255 else 255 * 3) * real_of_int h"
proof -
  have "y \<le> y + h" using assms(5) by simp
  from loop_y_ok [OF assms(1,2,3) assms(4) this assms(6), of acc]
  obtain s where s: "loop_y view g iw x y (y + h) acc = Inr s" "acc \<le> s"
    "s \<le> acc + (if g then 255 else 255 * 3) * real_of_int h"
    by auto
  have stop: "loop_x view g iw (x + 1) (x + 1) y h s = Inr s"
    by (subst loop_x.simps) simp
  have "loop_x view g iw x (x + 1) y h acc = loop_x view g iw (x + 1) (x + 1) y h s"
    using s(1) by (subst loop_x.simps) simp
  with stop s show ?thesis by simp
qed

lemma loop_x_block_ok:
  assumes geo: "0 \<le> x_min" "x_min + int w \<le> iw" "0 \<le> y_min" "0 < h" "y_min + h \<le> ymax"
    and view: "(if g then 1 else 3) * iw * ymax \<le> int (length view)"
  shows "count \<le> w \<Longrightarrow> w \<le> length cv \<Longrightarrow> (\<forall>j. count \<le> j \<and> j < w \<longrightarrow> cv ! j = 0) \<Longrightarrow>
     \<exists>p. loop_x_block view g iw (int w) 1 y_min h (x_min + int count) count count cv = Inr (p, w) \<and>
       length p = length cv \<and> (\<forall>j<count. p ! j = cv ! j) \<and>
       (\<forall>j. count \<le> j \<and> j < w \<longrightarrow> 0 \<le> p ! j \<and> p ! j \<le> 1)"
proof (induction "w - count" arbitrary: count cv)
  case 0
  then have "count = w" by simp
  then show ?case by (subst loop_x_block.simps) simp
next
  case (Suc k)
  then have lt: "count < w" and len: "count < length cv" by simp_all
  let ?M = "if g then 255 else 255 * 3 :: real"
  let ?x = "x_min + int count"
  have x: "0 \<le> ?x" "?x < iw" using geo(1,2) lt by simp_all
  have z: "cv ! count = 0" using Suc.prems(3) lt by simp
  have h0: "0 \<le> h" using geo(4) by simp
  from loop_x_column [OF x view geo(3) h0 geo(5), of 0]
  obtain s where s: "loop_x view g iw ?x (?x + 1) y_min h 0 = Inr s" "0 \<le> s"
    "s \<le> ?M * real_of_int h"
    by (auto split: if_splits)
  let ?v = "s / ?M / real_of_int (1 * h)"
  let ?cv = "cv[count := ?v]"
  have Mpos: "0 < ?M" by simp
  have hpos: "0 < real_of_int h" using geo(4) by simp
  define a where "a = s / ?M"
  have veq: "?v = a / real_of_int h" by (simp add: a_def)
  have a0: "0 \<le> a" unfolding a_def using s(2) Mpos by (intro divide_nonneg_pos)
  from s(3) have "s \<le> real_of_int h * ?M" by (simp only: mult.commute)
  then have a1: "a \<le> real_of_int h" unfolding a_def by (simp only: pos_divide_le_eq [OF Mpos])
  have v0: "0 \<le> ?v" unfolding veq using a0 hpos by (intro divide_nonneg_pos)
  have v1: "?v \<le> 1" unfolding veq using a1 by (simp only: pos_divide_le_eq [OF hpos] mult_1_left)
  have k: "k = w - Suc count" using Suc.hyps(2) by simp
  have zs: "\<forall>j. Suc count \<le> j \<and> j < w \<longrightarrow> ?cv ! j = 0" using Suc.prems(3) by simp
  have le: "Suc count \<le> w" using lt by simp
  have len': "w \<le> length ?cv" using Suc.prems(2) by simp
  from Suc.hyps(1) [OF k le len' zs]
  obtain p where p: "loop_x_block view g iw (int w) 1 y_min h (x_min + int (Suc count))
        (Suc count) (Suc count) ?cv = Inr (p, w)"
    "length p = length ?cv" "\<forall>j<Suc count. p ! j = ?cv ! j"
    "\<forall>j. Suc count \<le> j \<and> j < w \<longrightarrow> 0 \<le> p ! j \<and> p ! j \<le> 1"
    by blast
  have xs: "x_min + int (Suc count) = ?x + 1" by simp
  have run: "loop_x_block view g iw (int w) 1 y_min h ?x count count cv =
      loop_x_block view g iw (int w) 1 y_min h (?x + 1) (Suc count) (Suc count) ?cv"
    using lt len s(1) z geo(4) by (subst loop_x_block.simps) simp
  have at: "p ! count = ?v" using p(3) len by simp
  have before: "\<forall>j<count. p ! j = cv ! j" using p(3) by simp
  have range: "\<forall>j. count \<le> j \<and> j < w \<longrightarrow> 0 \<le> p ! j \<and> p ! j \<le> 1"
  proof (intro allI impI)
    fix j assume j: "count \<le> j \<and> j < w"
    show "0 \<le> p ! j \<and> p ! j \<le> 1"
    proof (cases "j = count")
      case True
      then show ?thesis using at v0 v1 by simp
    next
      case False
      with j p(4) show ?thesis by simp
    qed
  qed
  from p(1) have "loop_x_block view g iw (int w) 1 y_min h (?x + 1) (Suc count) (Suc count) ?cv =
      Inr (p, w)"
    by (simp only: xs)
  with run have "loop_x_block view g iw (int w) 1 y_min h ?x count count cv = Inr (p, w)"
    by (rule trans)
  with p(2) before range show ?case by simp
qed

lemma loop_y_block_once:
  "loop_x_block view g iw tsz xbs y_block ybs x_min 0 0 cv = Inr (p, dn) \<Longrightarrow>
   loop_y_block view g iw tsz 1 x_min xbs ybs y_block 0 0 cv = Inr p"
proof -
  assume a: "loop_x_block view g iw tsz xbs y_block ybs x_min 0 0 cv = Inr (p, dn)"
  have stop: "loop_y_block view g iw tsz 1 x_min xbs ybs (y_block + ybs) (Suc 0) dn p = Inr p"
    by (subst loop_y_block.simps) simp
  have "loop_y_block view g iw tsz 1 x_min xbs ybs y_block 0 0 cv =
      loop_y_block view g iw tsz 1 x_min xbs ybs (y_block + ybs) (Suc 0) dn p"
    using a by (subst loop_y_block.simps) simp
  with stop show ?thesis by simp
qed

section \<open>What a successful call has done\<close>

lemma visual_odo_Inr:
  assumes "visual_odo st data width olddata = Inr (olddata', vtrans_ms, vrot_rads)"
  shows "\<exists>mindiff minoffset.
      best_shift data olddata (int (unat width)) = Inr (mindiff, minoffset) \<and>
      copy_loop 0 (unat width) data olddata = Inr olddata' \<and>
      IMAGE_WIDTH st \<noteq> 0 \<and>
      vrot_rads = minoffset * CAMERA_FOV_DEG st / real_of_int (IMAGE_WIDTH st)
                    * CAMERA_HZ st * M_PI / 180 \<and>
      vtrans_ms = (if mindiff * VTRANS_SCALING st > VTRANS_MAX st then VTRANS_MAX st
                   else mindiff * VTRANS_SCALING st)"
  using assms
  by (auto simp: visual_odo_def Let_def split: sum.splits prod.splits if_splits)

lemma seed_previous_Inr:
  assumes "seed_previous st = Inr st1"
  shows "\<exists>tpp rpp. st1 = st\<lparr>vtrans_prev_profile := tpp, vrot_prev_profile := rpp,
            first := False\<rparr>"
proof (cases "first st")
  case True
  with assms show ?thesis
    by (auto simp: seed_previous_def split: sum.splits)
next
  case False
  with assms have "st1 = st" by (simp add: seed_previous_def)
  with False have "st1 = st\<lparr>vtrans_prev_profile := vtrans_prev_profile st,
      vrot_prev_profile := vrot_prev_profile st, first := False\<rparr>"
    by simp
  then show ?thesis by blast
qed

lemma on_image_Inr:
  assumes "on_image st data greyscale image_width image_height = Inr (st', vtrans_ms, vrot_rads)"
  shows "\<exists>st1 tp tpp d1 rp rpp d2.
      seed_previous (st\<lparr>IMAGE_WIDTH := sint image_width, IMAGE_HEIGHT := sint image_height\<rparr>)
        = Inr st1 \<and>
      convert_view_to_view_template (IMAGE_WIDTH st1) (vtrans_profile st1) data greyscale
        (VTRANS_IMAGE_X_MIN st1) (VTRANS_IMAGE_X_MAX st1)
        (VTRANS_IMAGE_Y_MIN st1) (VTRANS_IMAGE_Y_MAX st1) = Inr tp \<and>
      visual_odo st1 tp (of_nat (length tp)) (vtrans_prev_profile st1) = Inr (tpp, vtrans_ms, d1) \<and>
      convert_view_to_view_template (IMAGE_WIDTH st1) (vrot_profile st1) data greyscale
        (VROT_IMAGE_X_MIN st1) (VROT_IMAGE_X_MAX st1)
        (VROT_IMAGE_Y_MIN st1) (VROT_IMAGE_Y_MAX st1) = Inr rp \<and>
      visual_odo st1 rp (of_nat (length rp)) (vrot_prev_profile st1) = Inr (rpp, d2, vrot_rads) \<and>
      st' = st1\<lparr>vtrans_profile := tp, vtrans_prev_profile := tpp,
                 vrot_profile := rp, vrot_prev_profile := rpp\<rparr>"
  using assms unfolding on_image_def
  by (simp split: sum.splits prod.splits)

text \<open>The estimator reads five members of the instance and none of the profiles.\<close>

lemma visual_odo_reads:
  "IMAGE_WIDTH st' = IMAGE_WIDTH st \<Longrightarrow> CAMERA_FOV_DEG st' = CAMERA_FOV_DEG st \<Longrightarrow>
   CAMERA_HZ st' = CAMERA_HZ st \<Longrightarrow> VTRANS_SCALING st' = VTRANS_SCALING st \<Longrightarrow>
   VTRANS_MAX st' = VTRANS_MAX st \<Longrightarrow>
   visual_odo st' data width olddata = visual_odo st data width olddata"
  by (simp add: visual_odo_def Let_def split: sum.split prod.split)

lemma visual_odo_call_Inr:
  assumes "visual_odo_call r st = Inr (st', vtrans_ms, vrot_rads)"
  shows "\<exists>olddata'.
      visual_odo st (current_profile r st) (of_nat (length (current_profile r st)))
        (previous_profile r st) = Inr (olddata', vtrans_ms, vrot_rads) \<and>
      st' = set_previous_profile r olddata' st"
  using assms by (auto simp: visual_odo_call_def split: sum.splits prod.splits)

text \<open>\<^verbatim>\<open>on_image\<close>, statement by statement on the instance: the two calls of the
  estimator are the calls \<open>visual_odo_call\<close> describes.\<close>

lemma on_image_calls:
  "on_image st data greyscale image_width image_height =
     (case seed_previous (st\<lparr>IMAGE_WIDTH := sint image_width, IMAGE_HEIGHT := sint image_height\<rparr>) of
        Inl e \<Rightarrow> Inl e
      | Inr st1 \<Rightarrow>
     (case convert_view_to_view_template (IMAGE_WIDTH st1) (vtrans_profile st1) data greyscale
             (VTRANS_IMAGE_X_MIN st1) (VTRANS_IMAGE_X_MAX st1)
             (VTRANS_IMAGE_Y_MIN st1) (VTRANS_IMAGE_Y_MAX st1) of
        Inl e \<Rightarrow> Inl e
      | Inr tp \<Rightarrow>
     (case visual_odo_call Translation (st1\<lparr>vtrans_profile := tp\<rparr>) of
        Inl e \<Rightarrow> Inl e
      | Inr (st2, vtrans_ms, dummy) \<Rightarrow>
     (case convert_view_to_view_template (IMAGE_WIDTH st2) (vrot_profile st2) data greyscale
             (VROT_IMAGE_X_MIN st2) (VROT_IMAGE_X_MAX st2)
             (VROT_IMAGE_Y_MIN st2) (VROT_IMAGE_Y_MAX st2) of
        Inl e \<Rightarrow> Inl e
      | Inr rp \<Rightarrow>
     (case visual_odo_call Rotation (st2\<lparr>vrot_profile := rp\<rparr>) of
        Inl e \<Rightarrow> Inl e
      | Inr (st3, dummy, vrot_rads) \<Rightarrow> Inr (st3, vtrans_ms, vrot_rads))))))"
proof -
  have r: "visual_odo (st1\<lparr>vtrans_profile := tp\<rparr>) = visual_odo st1"
    "visual_odo (st1\<lparr>vtrans_profile := tp, vtrans_prev_profile := tpp, vrot_profile := rp\<rparr>) =
       visual_odo st1"
    for st1 tp tpp rp
    by (intro ext visual_odo_reads; simp)+
  show ?thesis
    unfolding on_image_def visual_odo_call_def current_profile_def previous_profile_def
      set_previous_profile_def
    by (simp add: r split: sum.split prod.split)
qed

text \<open>Right after construction each previous profile equals its current profile (both
  are zero-filled), so the first-frame block of \<^verbatim>\<open>on_image\<close> changes nothing but
  the flag.\<close>

lemma seed_previous_after_construction:
  assumes "VisualOdometry
            vtrans_image_x_min vtrans_image_x_max vtrans_image_y_min vtrans_image_y_max
            vrot_image_x_min vrot_image_x_max vrot_image_y_min vrot_image_y_max
            camera_fov_deg camera_hz vtrans_scaling vtrans_max = Inr st"
  shows "seed_previous (st\<lparr>IMAGE_WIDTH := w, IMAGE_HEIGHT := h\<rparr>) =
           Inr (st\<lparr>IMAGE_WIDTH := w, IMAGE_HEIGHT := h, first := False\<rparr>)"
proof -
  from assms have e: "vtrans_profile st = vtrans_prev_profile st"
      "vrot_profile st = vrot_prev_profile st" "first st"
    by (auto simp: VisualOdometry_def resolve_max_def resize_def split: if_splits)
  show ?thesis
    by (simp add: seed_previous_def e copy_loop_same)
qed

section \<open>The example frame\<close>

lemma demo_extract:
  "convert_view_to_view_template 40 demo_zero demo_image True 0 40 0 1 = Inr demo_profile"
  by code_simp

lemma demo_best_shift: "best_shift demo_profile demo_zero 40 = Inr (1 / 255, - 39)"
  by code_simp

lemma demo_copy: "copy_loop 0 40 demo_profile demo_zero = Inr demo_profile"
  by code_simp

lemma demo_seed: "copy_loop 0 40 demo_zero demo_zero = Inr demo_zero"
  by code_simp

lemma demo_construct:
  "VisualOdometry 0 40 0 1 0 40 0 1 50 10 1 10 = Inr demo_camera"
  by (simp add: VisualOdometry_def resolve_max_def resize_def demo_camera_def demo_zero_def)

lemma demo_lengths: "length demo_zero = 40" "length demo_profile = 40"
  by (simp_all add: demo_zero_def demo_profile_def)

lemma demo_visual_odo:
  "IMAGE_WIDTH st = 40 \<Longrightarrow> CAMERA_FOV_DEG st = fov \<Longrightarrow> CAMERA_HZ st = 10 \<Longrightarrow>
   VTRANS_SCALING st = 1 \<Longrightarrow> VTRANS_MAX st = 10 \<Longrightarrow>
   visual_odo st demo_profile 40 demo_zero = Inr (demo_profile, 1 / 255, - (39 * fov * pi / 720))"
  by (simp add: visual_odo_def demo_best_shift demo_copy M_PI_def)

lemma demo_sint: "sint (40 :: 32 word) = 40" "sint (1 :: 32 word) = 1"
  by simp_all

lemma demo_seed_previous:
  "seed_previous (demo_camera\<lparr>IMAGE_WIDTH := 40, IMAGE_HEIGHT := 1\<rparr>) =
     Inr (demo_camera\<lparr>IMAGE_WIDTH := 40, IMAGE_HEIGHT := 1, first := False\<rparr>)"
  by (simp add: seed_previous_def demo_camera_def demo_lengths demo_seed)

lemma demo_on_image:
  "on_image demo_camera demo_image True 40 1 = Inr (demo_camera_after, 1 / 255, - (65 * pi / 24))"
proof -
  let ?st1 = "demo_camera\<lparr>IMAGE_WIDTH := 40, IMAGE_HEIGHT := 1, first := False\<rparr>"
  have f: "IMAGE_WIDTH ?st1 = 40" "VTRANS_IMAGE_X_MIN ?st1 = 0" "VTRANS_IMAGE_X_MAX ?st1 = 40"
    "VTRANS_IMAGE_Y_MIN ?st1 = 0" "VTRANS_IMAGE_Y_MAX ?st1 = 1"
    "VROT_IMAGE_X_MIN ?st1 = 0" "VROT_IMAGE_X_MAX ?st1 = 40"
    "VROT_IMAGE_Y_MIN ?st1 = 0" "VROT_IMAGE_Y_MAX ?st1 = 1"
    "vtrans_profile ?st1 = demo_zero" "vtrans_prev_profile ?st1 = demo_zero"
    "vrot_profile ?st1 = demo_zero" "vrot_prev_profile ?st1 = demo_zero"
    by (simp_all add: demo_camera_def)
  have c: "CAMERA_FOV_DEG ?st1 = 50" "CAMERA_HZ ?st1 = 10" "VTRANS_SCALING ?st1 = 1"
    "VTRANS_MAX ?st1 = 10"
    by (simp_all add: demo_camera_def)
  have vo: "visual_odo ?st1 demo_profile 40 demo_zero =
      Inr (demo_profile, 1 / 255, - (39 * 50 * pi / 720))"
    by (rule demo_visual_odo [OF f(1) c])
  have "on_image demo_camera demo_image True 40 1 =
     Inr (?st1\<lparr>vtrans_profile := demo_profile, vtrans_prev_profile := demo_profile,
                vrot_profile := demo_profile, vrot_prev_profile := demo_profile\<rparr>,
          1 / 255, - (39 * 50 * pi / 720))"
    unfolding on_image_def
    by (simp only: of_nat_numeral demo_sint demo_seed_previous sum.case f demo_extract
        demo_lengths vo prod.case)
  also have "?st1\<lparr>vtrans_profile := demo_profile, vtrans_prev_profile := demo_profile,
                vrot_profile := demo_profile, vrot_prev_profile := demo_profile\<rparr> =
      demo_camera_after"
    by (simp add: demo_camera_after_def demo_camera_def)
  finally show ?thesis by simp
qed

lemma short_best_shift: "best_shift short_profile short_profile 10 = Inr (0, 0)"
  by code_simp

lemma short_copy: "copy_loop 0 10 short_profile short_profile = Inr short_profile"
  by code_simp

lemma short_candidate:
  "candidates short_profile short_profile 10 ! 10 = (None, - 10)"
  by code_simp

section \<open>The claims\<close>

subsection \<open>C1: the first frame\<close>

text \<open>
  C1 states that the first call of \<^verbatim>\<open>on_image\<close> writes zero to both output slots
  whatever the image holds. The first-frame block copies the current profiles into the
  previous ones before the extractor has filled the current ones, so the first frame is
  compared with the zero profile. On the example camera, freshly constructed, the example
  frame yields the translational speed \<open>1 / 255\<close> and the rotational rate
  \<open>- 65 \<pi> / 24\<close>: neither is zero.
\<close>

theorem first_frame_reports_motion:
  "VisualOdometry 0 40 0 1 0 40 0 1 50 10 1 10 = Inr demo_camera \<and>
   first demo_camera \<and>
   on_image demo_camera demo_image True 40 1 =
     Inr (demo_camera_after, 1 / 255, - (65 * pi / 24)) \<and>
   (1 / 255 :: real) \<noteq> 0 \<and> - (65 * pi / 24) \<noteq> 0"
  using demo_construct demo_on_image by (simp add: demo_camera_def)

subsection \<open>C2: the region bounds at construction\<close>

text \<open>
  C2, as amended: a maximum bound of a region that is zero or positive is stored as given
  (zero is no sentinel: the constructor tests \<open>< 0\<close>), and the four profile buffers are
  sized at construction from the stored bounds, \<open>x_max - x_min\<close> of their region; the
  constructor returns whenever neither width is negative. What a negative bound resolves to
  is not part of the statement.
\<close>

theorem VisualOdometry_keeps_bounds:
  assumes "0 \<le> vtrans_image_x_max" and "0 \<le> vtrans_image_y_max"
    and "0 \<le> vrot_image_x_max" and "0 \<le> vrot_image_y_max"
    and "vtrans_image_x_min \<le> vtrans_image_x_max" and "vrot_image_x_min \<le> vrot_image_x_max"
  shows "\<exists>st. VisualOdometry
            vtrans_image_x_min vtrans_image_x_max vtrans_image_y_min vtrans_image_y_max
            vrot_image_x_min vrot_image_x_max vrot_image_y_min vrot_image_y_max
            camera_fov_deg camera_hz vtrans_scaling vtrans_max = Inr st \<and>
          VTRANS_IMAGE_X_MAX st = vtrans_image_x_max \<and>
          VTRANS_IMAGE_Y_MAX st = vtrans_image_y_max \<and>
          VROT_IMAGE_X_MAX st = vrot_image_x_max \<and>
          VROT_IMAGE_Y_MAX st = vrot_image_y_max \<and>
          length (vtrans_profile st) = nat (vtrans_image_x_max - vtrans_image_x_min) \<and>
          length (vtrans_prev_profile st) = nat (vtrans_image_x_max - vtrans_image_x_min) \<and>
          length (vrot_profile st) = nat (vrot_image_x_max - vrot_image_x_min) \<and>
          length (vrot_prev_profile st) = nat (vrot_image_x_max - vrot_image_x_min) \<and>
          first st"
  using assms by (simp add: VisualOdometry_def resolve_max_def resize_def)

text \<open>C2, witness: both regions the whole of a 160 by 120 image, bounds given in full.\<close>

theorem VisualOdometry_keeps_bounds_witness:
  "(0::int) \<le> 160 \<and> (0::int) \<le> 120 \<and>
   (\<exists>st. VisualOdometry 0 160 0 120 0 160 0 120 50 10 1 10 = Inr st \<and>
      VROT_IMAGE_X_MAX st = 160 \<and> length (vrot_profile st) = 160 \<and>
      length (vrot_prev_profile st) = 160)"
  using VisualOdometry_keeps_bounds [of 160 120 160 120 0 0 0 0 50 10 1 10]
  by auto

text \<open>C2 as stated fails for the bound zero: a rotation-region maximum of \<open>0\<close> is stored
  as \<open>0\<close>, whatever the size of the images, and the rotation profile is empty.\<close>

theorem VisualOdometry_zero_bound_counterexample:
  "map_sum id VROT_IMAGE_X_MAX (VisualOdometry 0 160 0 120 0 0 0 120 50 10 1 10) = Inr 0 \<and>
   map_sum id (\<lambda>st. length (vrot_profile st))
     (VisualOdometry 0 160 0 120 0 0 0 120 50 10 1 10) = Inr 0"
  by (simp add: VisualOdometry_def resolve_max_def resize_def)

subsection \<open>C3: the divisor of the mean\<close>

text \<open>
  C3, as amended: when the profile is at least as long as the search radius
  (\<open>slen \<le> width\<close>), every offset the scans evaluate (\<open>0 \<le> offset < slen\<close>) has a
  strictly positive divisor \<open>cwl - offset\<close>, the division yields a number, and no candidate
  of the search is a NaN.
\<close>

theorem denominator_positive:
  assumes "slen \<le> int (unat (width :: 16 word))" and "0 \<le> offset" and "offset < slen"
  shows "0 < denominator (int (unat width)) offset \<and>
         fdiv cdiff (denominator (int (unat width)) offset) =
           Some (cdiff / real_of_int (int (unat width) - offset)) \<and>
         (\<forall>j<length (candidates data olddata (int (unat width))).
            fst (candidates data olddata (int (unat width)) ! j) \<noteq> None)"
proof -
  let ?cwl = "int (unat width)"
  have d: "0 < denominator ?cwl offset" using assms by (simp add: denominator_def)
  then have f: "fdiv cdiff (denominator ?cwl offset) = Some (cdiff / real_of_int (?cwl - offset))"
    by (simp add: fdiv_def denominator_def)
  have m: "mean_abs_diff data olddata da oa (?cwl - int k) \<noteq> None" if "k < 40" for da oa k
    using that assms(1) by (simp add: mean_abs_diff_def fdiv_def slen_def)
  have "fst (candidates data olddata ?cwl ! j) \<noteq> None" if j: "j < 80" for j
  proof (cases "j < 40")
    case True
    then show ?thesis using m [of j 0 j] by (simp add: candidates_nth_neg)
  next
    case False
    with j have k: "j - 40 < 40" "j = 40 + (j - 40)" by simp_all
    have "fst (candidates data olddata ?cwl ! (40 + (j - 40))) \<noteq> None"
      using m [of "j - 40" "j - 40" 0] k(1) by (simp only: candidates_nth_pos fst_conv) simp
    with k(2) show ?thesis by simp
  qed
  with d f show ?thesis by (simp add: candidates_length)
qed

text \<open>C3, witness: width 40 and the last offset, 39.\<close>

theorem denominator_positive_witness:
  "slen \<le> int (unat (40 :: 16 word)) \<and> (0::int) \<le> 39 \<and> 39 < slen \<and>
   0 < denominator (int (unat (40 :: 16 word))) 39 \<and>
   fdiv 1 (denominator (int (unat (40 :: 16 word))) 39) = Some 1"
  using denominator_positive [of 40 39 1] by (simp add: slen_def)

text \<open>C3 as stated fails without that precondition, which the estimator does not check:
  on a profile of length 10 the offset 10 is evaluated (\<open>10 < slen\<close>), its divisor is zero,
  the candidate is a NaN, and the call returns all the same.\<close>

theorem short_profile_counterexample:
  "(0::int) \<le> 10 \<and> 10 < slen \<and>
   \<not> 0 < denominator (int (unat (10 :: 16 word))) 10 \<and>
   candidates short_profile short_profile (int (unat (10 :: 16 word))) ! 10 = (None, - 10) \<and>
   visual_odo demo_camera_after short_profile 10 short_profile = Inr (short_profile, 0, 0)"
proof -
  have u: "int (unat (10 :: 16 word)) = 10" by simp
  have "visual_odo demo_camera_after short_profile 10 short_profile = Inr (short_profile, 0, 0)"
    by (simp add: visual_odo_def u short_best_shift short_copy demo_camera_after_def
        demo_camera_def)
  then show ?thesis
    by (simp only: u short_candidate) (simp add: slen_def denominator_def)
qed

subsection \<open>C4: the range of the profile\<close>

text \<open>
  C4: for a region inside the image (\<open>0 \<le> x_min < x_max \<le> width\<close>,
  \<open>0 \<le> y_min < y_max\<close>, the pixel buffer covering the rows up to \<open>y_max\<close>, the bounds
  fitting an \<^verbatim>\<open>int\<close>) and a profile buffer as long as the region is wide, the
  extractor returns, keeps the length of the buffer, and every entry it writes lies in
  \<open>[0, 1]\<close>, for greyscale and for RGB pixels alike.
\<close>

theorem profile_entries_in_unit_interval:
  assumes "0 \<le> X_RANGE_MIN" "X_RANGE_MIN < X_RANGE_MAX" "X_RANGE_MAX \<le> image_width"
    and "0 \<le> Y_RANGE_MIN" "Y_RANGE_MIN < Y_RANGE_MAX"
    and "(if grayscale then 1 else 3) * image_width * Y_RANGE_MAX \<le> int (length view_rgb)"
    and "X_RANGE_MAX < 2 ^ 31" "Y_RANGE_MAX < 2 ^ 31"
    and "X_RANGE_MAX - X_RANGE_MIN \<le> int (length current_view)"
  shows "\<exists>p. convert_view_to_view_template image_width current_view view_rgb grayscale
             X_RANGE_MIN X_RANGE_MAX Y_RANGE_MIN Y_RANGE_MAX = Inr p \<and>
           length p = length current_view \<and>
           (\<forall>i < nat (X_RANGE_MAX - X_RANGE_MIN). 0 \<le> p ! i \<and> p ! i \<le> 1)"
proof -
  define w where "w = nat (X_RANGE_MAX - X_RANGE_MIN)"
  define h where "h = Y_RANGE_MAX - Y_RANGE_MIN"
  have w: "X_RANGE_MAX - X_RANGE_MIN = int w" "0 < w" using assms(2) by (simp_all add: w_def)
  have wlt: "int w < 2 ^ 32" using assms(1,7) w(1) by simp
  have tsz: "to_unsigned (X_RANGE_MAX - X_RANGE_MIN) = int w"
    using wlt by (simp add: to_unsigned_def w(1))
  have xbs: "to_int (to_unsigned (X_RANGE_MAX - X_RANGE_MIN) div int w) = 1"
    using w(2) by (simp add: tsz to_int_def)
  have hr: "0 < h" "h < 2 ^ 31" using assms(4,5,8) by (simp_all add: h_def)
  have ybs: "to_int (to_unsigned (Y_RANGE_MAX - Y_RANGE_MIN)) = h"
    using hr by (simp add: to_int_def to_unsigned_def h_def [symmetric])
  have one: "to_int 1 = 1" by (simp add: to_int_def)
  have wlen: "w \<le> length current_view" using assms(9) w(1) by simp
  from zero_loop_ok [of 0 w current_view] wlen
  obtain cv0 where cv0: "zero_loop 0 (int w) current_view = Inr cv0"
    "length cv0 = length current_view" "\<forall>j. 0 \<le> j \<and> j < w \<longrightarrow> cv0 ! j = 0"
    by auto
  have g2: "X_RANGE_MIN + int w \<le> image_width" using assms(3) w(1) by simp
  have g5: "Y_RANGE_MIN + h \<le> Y_RANGE_MAX" by (simp add: h_def)
  have wlen0: "w \<le> length cv0" using wlen cv0(2) by simp
  from loop_x_block_ok [OF assms(1) g2 assms(4) hr(1) g5 assms(6), of 0 cv0] wlen0 cv0(3)
  obtain p where p: "loop_x_block view_rgb grayscale image_width (int w) 1 Y_RANGE_MIN h
        X_RANGE_MIN 0 0 cv0 = Inr (p, w)"
    "length p = length cv0" "\<forall>j. 0 \<le> j \<and> j < w \<longrightarrow> 0 \<le> p ! j \<and> p ! j \<le> 1"
    by auto
  have run: "loop_y_block view_rgb grayscale image_width (int w) 1 X_RANGE_MIN 1 h
        Y_RANGE_MIN 0 0 cv0 = Inr p"
    by (rule loop_y_block_once [OF p(1)])
  have "convert_view_to_view_template image_width current_view view_rgb grayscale
             X_RANGE_MIN X_RANGE_MAX Y_RANGE_MIN Y_RANGE_MAX = Inr p"
    unfolding convert_view_to_view_template_def Let_def
    using w(2) by (simp add: tsz one ybs cv0(1) run)
  with p(2,3) cv0(2) show ?thesis by (simp add: w_def)
qed

text \<open>C4, witness: a 2 by 2 greyscale image.\<close>

theorem profile_range_witness:
  "(0::int) \<le> 0 \<and> (0::int) < 2 \<and> (2::int) \<le> 2 \<and>
   (if True then 1 else 3) * 2 * 2 \<le> int (length [0, 255, 255, 0 :: byte]) \<and>
   (2::int) < 2 ^ 31 \<and> 2 - 0 \<le> int (length [7, 7 :: real]) \<and>
   (\<exists>p. convert_view_to_view_template 2 [7, 7] [0, 255, 255, 0] True 0 2 0 2 = Inr p \<and>
      length p = length [7, 7 :: real] \<and> (\<forall>i<nat (2 - 0). 0 \<le> p ! i \<and> p ! i \<le> 1))"
  using profile_entries_in_unit_interval [of 0 2 2 0 2 True "[0, 255, 255, 0]" "[7, 7]"] by simp

subsection \<open>C5: the first minimum wins\<close>

text \<open>
  C5: on profiles that hold \<open>cwl\<close> entries the two scans return, and their result is the
  first strict minimum of the candidates in the order of evaluation, started from the
  initial pair \<open>(1e6, 0)\<close>: either no candidate is below \<open>1e6\<close> and the initial pair
  stays, or the result is a candidate that is strictly below every earlier candidate and
  not above any candidate. The candidates of the scan with negated offsets come first
  (positions 0 to 39), those of the scan with positive offsets after them (positions 40 to
  79), and a candidate that is not below the recorded minimum replaces nothing.
\<close>

theorem best_shift_first_minimum:
  assumes "cwl \<le> int (length data)" and "cwl \<le> int (length olddata)"
  shows "(\<exists>mindiff minoffset.
      best_shift data olddata cwl = Inr (mindiff, minoffset) \<and>
      (((mindiff, minoffset) = (1000000, 0) \<and>
        (\<forall>j<length (candidates data olddata cwl). \<forall>c.
            fst (candidates data olddata cwl ! j) = Some c \<longrightarrow> 1000000 \<le> c)) \<or>
       (\<exists>i<length (candidates data olddata cwl).
          candidates data olddata cwl ! i = (Some mindiff, minoffset) \<and>
          mindiff < 1000000 \<and>
          (\<forall>j<i. \<forall>c. fst (candidates data olddata cwl ! j) = Some c \<longrightarrow> mindiff < c) \<and>
          (\<forall>j<length (candidates data olddata cwl). \<forall>c.
              fst (candidates data olddata cwl ! j) = Some c \<longrightarrow> mindiff \<le> c)))) \<and>
     (\<forall>offset<40.
        candidates data olddata cwl ! offset =
          (mean_abs_diff data olddata 0 offset (cwl - int offset), - real offset) \<and>
        candidates data olddata cwl ! (40 + offset) =
          (mean_abs_diff data olddata offset 0 (cwl - int offset), real offset)) \<and>
     (\<forall>c off m. fst m \<le> c \<longrightarrow> keep_min (Some c) off m = m)"
proof -
  let ?cs = "candidates data olddata cwl"
  let ?r = "select_min (1000000, 0) ?cs"
  have run: "best_shift data olddata cwl = Inr (fst ?r, snd ?r)"
    using best_shift_select [OF assms] by simp
  from select_min_first [of "(1000000, 0)" ?cs]
  have "((fst ?r, snd ?r) = (1000000, 0) \<and>
        (\<forall>j<length ?cs. \<forall>c. fst (?cs ! j) = Some c \<longrightarrow> 1000000 \<le> c)) \<or>
       (\<exists>i<length ?cs. ?cs ! i = (Some (fst ?r), snd ?r) \<and> fst ?r < 1000000 \<and>
          (\<forall>j<i. \<forall>c. fst (?cs ! j) = Some c \<longrightarrow> fst ?r < c) \<and>
          (\<forall>j<length ?cs. \<forall>c. fst (?cs ! j) = Some c \<longrightarrow> fst ?r \<le> c))"
    by (simp add: prod_eq_iff)
  with run have first: "\<exists>mindiff minoffset.
      best_shift data olddata cwl = Inr (mindiff, minoffset) \<and>
      (((mindiff, minoffset) = (1000000, 0) \<and>
        (\<forall>j<length ?cs. \<forall>c. fst (?cs ! j) = Some c \<longrightarrow> 1000000 \<le> c)) \<or>
       (\<exists>i<length ?cs. ?cs ! i = (Some mindiff, minoffset) \<and> mindiff < 1000000 \<and>
          (\<forall>j<i. \<forall>c. fst (?cs ! j) = Some c \<longrightarrow> mindiff < c) \<and>
          (\<forall>j<length ?cs. \<forall>c. fst (?cs ! j) = Some c \<longrightarrow> mindiff \<le> c)))"
    by blast
  have order: "\<forall>offset<40.
        ?cs ! offset = (mean_abs_diff data olddata 0 offset (cwl - int offset), - real offset) \<and>
        ?cs ! (40 + offset) = (mean_abs_diff data olddata offset 0 (cwl - int offset), real offset)"
    using candidates_nth_neg candidates_nth_pos by blast
  have keep: "\<forall>c off m. fst m \<le> c \<longrightarrow> keep_min (Some c) off (m :: real \<times> real) = m"
    using keep_min_keeps by blast
  from first order keep show ?thesis by blast
qed

text \<open>C5, witness: the example profile against the zero profile.\<close>

theorem best_shift_first_minimum_witness:
  "40 \<le> int (length demo_profile) \<and> 40 \<le> int (length demo_zero) \<and>
   best_shift demo_profile demo_zero 40 = Inr (1 / 255, - 39) \<and>
   (\<exists>i<length (candidates demo_profile demo_zero 40).
      candidates demo_profile demo_zero 40 ! i = (Some (1 / 255), - 39) \<and>
      (\<forall>j<i. \<forall>c. fst (candidates demo_profile demo_zero 40 ! j) = Some c \<longrightarrow> 1 / 255 < c))"
proof -
  have l: "40 \<le> int (length demo_profile)" "40 \<le> int (length demo_zero)"
    by (simp_all add: demo_lengths)
  let ?cs = "candidates demo_profile demo_zero 40"
  from best_shift_first_minimum [OF l] obtain mindiff minoffset where
    b: "best_shift demo_profile demo_zero 40 = Inr (mindiff, minoffset)" and
    c: "((mindiff, minoffset) = (1000000, 0) \<and>
          (\<forall>j<length ?cs. \<forall>c. fst (?cs ! j) = Some c \<longrightarrow> 1000000 \<le> c)) \<or>
        (\<exists>i<length ?cs. ?cs ! i = (Some mindiff, minoffset) \<and> mindiff < 1000000 \<and>
          (\<forall>j<i. \<forall>c. fst (?cs ! j) = Some c \<longrightarrow> mindiff < c) \<and>
          (\<forall>j<length ?cs. \<forall>c. fst (?cs ! j) = Some c \<longrightarrow> mindiff \<le> c))"
    by blast
  from b demo_best_shift have e: "mindiff = 1 / 255" "minoffset = - 39" by simp_all
  then have ne: "(mindiff, minoffset) \<noteq> (1000000, 0)" by simp
  from c ne have "\<exists>i<length ?cs. ?cs ! i = (Some mindiff, minoffset) \<and>
      (\<forall>j<i. \<forall>c. fst (?cs ! j) = Some c \<longrightarrow> mindiff < c)"
    by blast
  then have "\<exists>i<length ?cs. ?cs ! i = (Some (1 / 255), - 39) \<and>
      (\<forall>j<i. \<forall>c. fst (?cs ! j) = Some c \<longrightarrow> 1 / 255 < c)"
    by (simp only: e)
  with l demo_best_shift show ?thesis by blast
qed

subsection \<open>C6: the rotational rate\<close>

text \<open>
  C6: the rotational rate that a call of the estimator writes is the winning offset of the
  two scans times the field of view (degrees), divided by the image width, times the frame
  rate, times \<open>\<pi> / 180\<close>.
\<close>

theorem visual_odo_rotation_rate:
  assumes "visual_odo st data width olddata = Inr (olddata', vtrans_ms, vrot_rads)"
  shows "\<exists>mindiff minoffset.
      best_shift data olddata (int (unat width)) = Inr (mindiff, minoffset) \<and>
      vrot_rads = minoffset * CAMERA_FOV_DEG st / real_of_int (IMAGE_WIDTH st)
                    * CAMERA_HZ st * pi / 180"
  using visual_odo_Inr [OF assms] by (auto simp: M_PI_def)

text \<open>C6, witness: the example profile against the zero profile.\<close>

theorem visual_odo_rotation_rate_witness:
  "visual_odo demo_camera_after demo_profile 40 demo_zero =
     Inr (demo_profile, 1 / 255, - (65 * pi / 24)) \<and>
   (\<exists>mindiff minoffset.
      best_shift demo_profile demo_zero (int (unat (40 :: 16 word))) = Inr (mindiff, minoffset) \<and>
      - (65 * pi / 24) = minoffset * CAMERA_FOV_DEG demo_camera_after
          / real_of_int (IMAGE_WIDTH demo_camera_after) * CAMERA_HZ demo_camera_after * pi / 180)"
proof -
  have r: "visual_odo demo_camera_after demo_profile 40 demo_zero =
     Inr (demo_profile, 1 / 255, - (65 * pi / 24))"
    using demo_visual_odo [of demo_camera_after 50]
    by (simp add: demo_camera_after_def demo_camera_def)
  from visual_odo_rotation_rate [OF r] r show ?thesis by simp
qed

subsection \<open>C7: the ceiling of the translational speed\<close>

text \<open>
  C7: the translational speed that a call of \<^verbatim>\<open>on_image\<close> writes is at most the
  ceiling \<^verbatim>\<open>VTRANS_MAX\<close> of the instance, whatever the image and the state; the call
  leaves the ceiling as it was.
\<close>

theorem translation_speed_clamped:
  assumes "on_image st data greyscale image_width image_height = Inr (st', vtrans_ms, vrot_rads)"
  shows "vtrans_ms \<le> VTRANS_MAX st \<and> VTRANS_MAX st' = VTRANS_MAX st"
proof -
  from on_image_Inr [OF assms] obtain st1 tp tpp d1 rp rpp where
    s: "seed_previous (st\<lparr>IMAGE_WIDTH := sint image_width, IMAGE_HEIGHT := sint image_height\<rparr>)
        = Inr st1"
    and v: "visual_odo st1 tp (of_nat (length tp)) (vtrans_prev_profile st1) = Inr (tpp, vtrans_ms, d1)"
    and e: "st' = st1\<lparr>vtrans_profile := tp, vtrans_prev_profile := tpp,
                 vrot_profile := rp, vrot_prev_profile := rpp\<rparr>"
    by blast
  from seed_previous_Inr [OF s] have m: "VTRANS_MAX st1 = VTRANS_MAX st" by auto
  from visual_odo_Inr [OF v] have "vtrans_ms \<le> VTRANS_MAX st1"
    by (auto split: if_splits)
  with m e show ?thesis by simp
qed

text \<open>C7, witness: the example frame.\<close>

theorem translation_speed_clamped_witness:
  "on_image demo_camera demo_image True 40 1 = Inr (demo_camera_after, 1 / 255, - (65 * pi / 24)) \<and>
   1 / 255 \<le> VTRANS_MAX demo_camera \<and> VTRANS_MAX demo_camera_after = VTRANS_MAX demo_camera"
  using translation_speed_clamped [OF demo_on_image] demo_on_image by simp

subsection \<open>C8: the previous profile after the estimator\<close>

text \<open>
  C8, in two parts. On the buffers handed in: after a call of the estimator the
  previous-profile buffer holds the current profile in each of its first \<open>width\<close>
  elements, and has kept its length and whatever lies beyond \<open>width\<close>. On the instance,
  for each of the two calls \<^verbatim>\<open>on_image\<close> makes: the previous profile of the region
  holds the current profile element by element (over its whole length when that fits the
  \<^verbatim>\<open>unsigned short\<close> width), the current profiles of both regions are as they were,
  the previous profile of the other region is as it was, and so is every other member: the
  instance after the call, with the two previous profiles put back, is the instance before.
\<close>

theorem visual_odo_overwrites_previous:
  "(visual_odo st data width olddata = Inr (olddata', vtrans_ms, vrot_rads) \<longrightarrow>
      length olddata' = length olddata \<and>
      (\<forall>i<unat width. olddata' ! i = data ! i) \<and>
      drop (unat width) olddata' = drop (unat width) olddata) \<and>
   (visual_odo_call r st = Inr (st', vtrans_ms', vrot_rads') \<longrightarrow>
      (\<forall>i<unat (of_nat (length (current_profile r st)) :: 16 word).
          previous_profile r st' ! i = current_profile r st ! i) \<and>
      (length (current_profile r st) < 65536 \<longrightarrow>
          take (length (current_profile r st)) (previous_profile r st') = current_profile r st) \<and>
      length (previous_profile r st') = length (previous_profile r st) \<and>
      (\<forall>r'. current_profile r' st' = current_profile r' st) \<and>
      (\<forall>r'. r' \<noteq> r \<longrightarrow> previous_profile r' st' = previous_profile r' st) \<and>
      st'\<lparr>vtrans_prev_profile := vtrans_prev_profile st,
          vrot_prev_profile := vrot_prev_profile st\<rparr> = st)"
proof (intro conjI impI)
  assume a: "visual_odo st data width olddata = Inr (olddata', vtrans_ms, vrot_rads)"
  from visual_odo_Inr [OF a] have c: "copy_loop 0 (unat width) data olddata = Inr olddata'"
    by blast
  from copy_loop_result [OF c]
  show "length olddata' = length olddata" "\<forall>i<unat width. olddata' ! i = data ! i"
    "drop (unat width) olddata' = drop (unat width) olddata"
    by simp_all
next
  assume a: "visual_odo_call r st = Inr (st', vtrans_ms', vrot_rads')"
  let ?cur = "current_profile r st"
  let ?n = "unat (of_nat (length ?cur) :: 16 word)"
  from visual_odo_call_Inr [OF a] obtain olddata' where
    v: "visual_odo st ?cur (of_nat (length ?cur)) (previous_profile r st) =
          Inr (olddata', vtrans_ms', vrot_rads')"
    and e: "st' = set_previous_profile r olddata' st"
    by blast
  from visual_odo_Inr [OF v] have c: "copy_loop 0 ?n ?cur (previous_profile r st) = Inr olddata'"
    by blast
  from copy_loop_result [OF c]
  have res: "0 < ?n \<longrightarrow> ?n \<le> length (previous_profile r st)"
    "length olddata' = length (previous_profile r st)"
    "\<forall>j<?n. olddata' ! j = ?cur ! j"
    by simp_all
  have prev: "previous_profile r st' = olddata'"
    by (cases r) (simp_all add: e previous_profile_def set_previous_profile_def)
  show "\<forall>i<?n. previous_profile r st' ! i = ?cur ! i"
    using res(3) by (simp only: prev)
  show "length (previous_profile r st') = length (previous_profile r st)"
    using res(2) by (simp only: prev)
  show "\<forall>r'. current_profile r' st' = current_profile r' st"
    by (cases r) (auto simp: e current_profile_def set_previous_profile_def split: region.splits)
  show "\<forall>r'. r' \<noteq> r \<longrightarrow> previous_profile r' st' = previous_profile r' st"
    by (cases r) (auto simp: e previous_profile_def set_previous_profile_def split: region.splits)
  show "st'\<lparr>vtrans_prev_profile := vtrans_prev_profile st,
          vrot_prev_profile := vrot_prev_profile st\<rparr> = st"
    by (cases r) (simp_all add: e set_previous_profile_def)
  show "take (length ?cur) (previous_profile r st') = ?cur" if l: "length ?cur < 65536"
  proof -
    have n: "?n = length ?cur" using l by (simp add: unat_of_nat)
    have le: "length ?cur \<le> length olddata'"
      using res(1,2) n by (cases "length ?cur = 0") simp_all
    have "take (length ?cur) olddata' = ?cur"
    proof (rule nth_equalityI)
      show "length (take (length ?cur) olddata') = length ?cur" using le by simp
    next
      fix i assume "i < length (take (length ?cur) olddata')"
      then have "i < length ?cur" by simp
      then show "take (length ?cur) olddata' ! i = ?cur ! i" using res(3) n by simp
    qed
    then show ?thesis by (simp only: prev)
  qed
qed

text \<open>C8, witness: the second call of the estimator in the example frame, previous profile
  all zero before it.\<close>

theorem visual_odo_overwrites_previous_witness:
  "visual_odo demo_camera_after demo_profile 40 demo_zero =
     Inr (demo_profile, 1 / 255, - (65 * pi / 24)) \<and>
   length demo_profile = length demo_zero \<and>
   drop (unat (40 :: 16 word)) demo_profile = drop (unat (40 :: 16 word)) demo_zero \<and>
   visual_odo_call Rotation demo_camera_before_rotation =
     Inr (demo_camera_after, 1 / 255, - (65 * pi / 24)) \<and>
   previous_profile Rotation demo_camera_before_rotation = demo_zero \<and>
   take (length (current_profile Rotation demo_camera_before_rotation))
     (previous_profile Rotation demo_camera_after) =
     current_profile Rotation demo_camera_before_rotation \<and>
   current_profile Rotation demo_camera_after =
     current_profile Rotation demo_camera_before_rotation \<and>
   demo_camera_after\<lparr>vtrans_prev_profile := vtrans_prev_profile demo_camera_before_rotation,
       vrot_prev_profile := vrot_prev_profile demo_camera_before_rotation\<rparr> =
     demo_camera_before_rotation"
proof -
  have r: "visual_odo demo_camera_after demo_profile 40 demo_zero =
     Inr (demo_profile, 1 / 255, - (65 * pi / 24))"
    using demo_visual_odo [of demo_camera_after 50]
    by (simp add: demo_camera_after_def demo_camera_def)
  have b: "visual_odo demo_camera_before_rotation demo_profile 40 demo_zero =
     Inr (demo_profile, 1 / 255, - (65 * pi / 24))"
    using demo_visual_odo [of demo_camera_before_rotation 50]
    by (simp add: demo_camera_before_rotation_def demo_camera_after_def demo_camera_def)
  have cur: "current_profile Rotation demo_camera_before_rotation = demo_profile"
    and old: "previous_profile Rotation demo_camera_before_rotation = demo_zero"
    by (simp_all add: current_profile_def previous_profile_def demo_camera_before_rotation_def
        demo_camera_after_def demo_camera_def)
  have upd: "set_previous_profile Rotation demo_profile demo_camera_before_rotation =
      demo_camera_after"
    by (simp add: set_previous_profile_def demo_camera_before_rotation_def
        demo_camera_after_def demo_camera_def)
  have c: "visual_odo_call Rotation demo_camera_before_rotation =
     Inr (demo_camera_after, 1 / 255, - (65 * pi / 24))"
    by (simp add: visual_odo_call_def cur old demo_lengths b upd)
  note t1 = visual_odo_overwrites_previous
    [where st = demo_camera_after and data = demo_profile and width = 40
       and olddata = demo_zero and olddata' = demo_profile and vtrans_ms = "1 / 255"
       and vrot_rads = "- (65 * pi / 24)"]
  note t2 = visual_odo_overwrites_previous
    [where st = demo_camera_before_rotation and r = Rotation and st' = demo_camera_after
       and vtrans_ms' = "1 / 255" and vrot_rads' = "- (65 * pi / 24)"]
  have l: "length (current_profile Rotation demo_camera_before_rotation) < 65536"
    by (simp add: cur demo_lengths)
  from t1 r have 1: "length demo_profile = length demo_zero"
    "drop (unat (40 :: 16 word)) demo_profile = drop (unat (40 :: 16 word)) demo_zero"
    by blast+
  from t2 c l have 2:
    "take (length (current_profile Rotation demo_camera_before_rotation))
       (previous_profile Rotation demo_camera_after) =
     current_profile Rotation demo_camera_before_rotation"
    "current_profile Rotation demo_camera_after =
     current_profile Rotation demo_camera_before_rotation"
    "demo_camera_after\<lparr>vtrans_prev_profile := vtrans_prev_profile demo_camera_before_rotation,
       vrot_prev_profile := vrot_prev_profile demo_camera_before_rotation\<rparr> =
     demo_camera_before_rotation"
    by blast+
  from r c old 1 2 show ?thesis by (intro conjI)
qed

subsection \<open>C9: determinism\<close>



subsection \<open>C10: the bound on the offset and on the rotational rate\<close>

text \<open>
  C10, as amended: the winning offset has magnitude at most 39 whatever the length of the
  profile, and for a positive image width the magnitude of the rotational rate is at most
  \<open>39 * \<bar>CAMERA_FOV_DEG * CAMERA_HZ\<bar> * \<pi> / (180 * IMAGE_WIDTH)\<close>.
\<close>

theorem rotation_rate_bounded:
  assumes "visual_odo st data width olddata = Inr (olddata', vtrans_ms, vrot_rads)"
  shows "(\<exists>mindiff minoffset.
      best_shift data olddata (int (unat width)) = Inr (mindiff, minoffset) \<and>
      \<bar>minoffset\<bar> \<le> 39) \<and>
     (0 < IMAGE_WIDTH st \<longrightarrow>
      \<bar>vrot_rads\<bar> \<le> 39 * \<bar>CAMERA_FOV_DEG st * CAMERA_HZ st\<bar> * pi
                        / (180 * real_of_int (IMAGE_WIDTH st)))"
proof -
  from visual_odo_Inr [OF assms] obtain mindiff minoffset where
    b: "best_shift data olddata (int (unat width)) = Inr (mindiff, minoffset)"
    and r: "vrot_rads = minoffset * CAMERA_FOV_DEG st / real_of_int (IMAGE_WIDTH st)
                    * CAMERA_HZ st * M_PI / 180"
    by blast
  have off: "\<bar>minoffset\<bar> \<le> 39" by (rule best_shift_offset [OF b])
  have "\<bar>vrot_rads\<bar> \<le> 39 * \<bar>CAMERA_FOV_DEG st * CAMERA_HZ st\<bar> * pi
                        / (180 * real_of_int (IMAGE_WIDTH st))"
    if w: "0 < IMAGE_WIDTH st"
  proof -
    let ?c = "\<bar>CAMERA_FOV_DEG st * CAMERA_HZ st\<bar> * pi / (180 * real_of_int (IMAGE_WIDTH st))"
    have c0: "0 \<le> ?c" using w by simp
    have "\<bar>vrot_rads\<bar> = \<bar>minoffset\<bar> * ?c"
      using w by (simp add: r M_PI_def abs_mult)
    also have "\<dots> \<le> 39 * ?c" using off c0 by (rule mult_right_mono)
    finally show ?thesis by simp
  qed
  with b off show ?thesis by blast
qed

text \<open>C10, witness: the camera with the negative field of view.\<close>

theorem rotation_rate_bounded_witness:
  "visual_odo demo_camera_mirrored demo_profile 40 demo_zero =
     Inr (demo_profile, 1 / 255, 65 * pi / 24) \<and>
   (\<exists>mindiff minoffset.
      best_shift demo_profile demo_zero (int (unat (40 :: 16 word))) = Inr (mindiff, minoffset) \<and>
      \<bar>minoffset\<bar> \<le> 39) \<and>
   0 < IMAGE_WIDTH demo_camera_mirrored \<and>
   \<bar>65 * pi / 24\<bar> \<le> 39 * \<bar>CAMERA_FOV_DEG demo_camera_mirrored * CAMERA_HZ demo_camera_mirrored\<bar> * pi
       / (180 * real_of_int (IMAGE_WIDTH demo_camera_mirrored))"
proof -
  have r: "visual_odo demo_camera_mirrored demo_profile 40 demo_zero =
     Inr (demo_profile, 1 / 255, 65 * pi / 24)"
    using demo_visual_odo [of demo_camera_mirrored "- 50"]
    by (simp add: demo_camera_mirrored_def demo_camera_after_def demo_camera_def)
  have w: "0 < IMAGE_WIDTH demo_camera_mirrored"
    by (simp add: demo_camera_mirrored_def demo_camera_after_def demo_camera_def)
  from rotation_rate_bounded [OF r] r w show ?thesis by blast
qed

text \<open>C10 as stated, without the absolute value, fails when the product of field of view
  and frame rate is negative: the stated bound is negative then.\<close>

theorem rotation_rate_sign_counterexample:
  "visual_odo demo_camera_mirrored demo_profile 40 demo_zero =
     Inr (demo_profile, 1 / 255, 65 * pi / 24) \<and>
   0 < IMAGE_WIDTH demo_camera_mirrored \<and>
   \<not> \<bar>65 * pi / 24\<bar> \<le> 39 * CAMERA_FOV_DEG demo_camera_mirrored * CAMERA_HZ demo_camera_mirrored * pi
       / (180 * real_of_int (IMAGE_WIDTH demo_camera_mirrored))"
proof -
  have r: "visual_odo demo_camera_mirrored demo_profile 40 demo_zero =
     Inr (demo_profile, 1 / 255, 65 * pi / 24)"
    using demo_visual_odo [of demo_camera_mirrored "- 50"]
    by (simp add: demo_camera_mirrored_def demo_camera_after_def demo_camera_def)
  have f: "CAMERA_FOV_DEG demo_camera_mirrored = - 50" "CAMERA_HZ demo_camera_mirrored = 10"
    "IMAGE_WIDTH demo_camera_mirrored = 40"
    by (simp_all add: demo_camera_mirrored_def demo_camera_after_def demo_camera_def)
  have "\<not> pi \<le> 0" using pi_gt_zero by (simp only: not_le)
  then have "\<not> \<bar>65 * pi / 24\<bar> \<le> 39 * (- 50) * 10 * pi / (180 * real_of_int 40)"
    by simp
  with r show ?thesis by (simp only: f) simp
qed


end
